theory Spec2Isabelle
  imports Main "HOL-Library.Monad_Syntax"
begin


section \<open>Data model of the single-pass compiler (src/parser/parser.cpp)\<close>

text \<open>
  The token kinds that parser.cpp names. The enumeration itself is declared in a header
  of the tokenizer; \<open>NUMBER\<close>, \<open>AND\<close> and \<open>OR\<close> are the kinds whose rule rows carry
  \<open>_number\<close>, \<open>and_\<close> and \<open>or_\<close>.
\<close>

datatype TokenKind =
    LEFT_PAREN | RIGHT_PAREN | LEFT_BRACE | RIGHT_BRACE | COMMA | SEMICOLON
  | PLUS | MINUS | STAR | SLASH | MODULO | POWER
  | BANG | BANG_EQUAL | EQUAL | EQUAL_EQUAL | WALRUS
  | GREATER | GREATER_EQUAL | LESS | LESS_EQUAL
  | IDENTIFIER | STRING | NUMBER | AND | OR | TRUE | FALSE | NIL
  | HAVE | FUNC | IF | ELSE | WHILE | FOR | CONTINUE | BREAK | RETURN | INFO | USING
  | EOF_TOKEN

text \<open>
  A token: \<open>lexeme\<close> stands for the pair (start, length) of the C struct, that is the
  characters the token spans in the source text.
\<close>

record Token =
  kind :: TokenKind
  lexeme :: string
  line :: nat

datatype OpCode =
    OP_CONSTANT | OP_NIL | OP_TRUE | OP_FALSE | OP_POP
  | OP_GET_LOCAL | OP_SET_LOCAL | OP_GET_GLOBAL | OP_DEFINE_GLOBAL | OP_SET_GLOBAL
  | OP_EQUAL | OP_GREATER | OP_LESS
  | OP_ADD | OP_SUBTRACT | OP_MULTIPLY | OP_DIVIDE | OP_MODULO | OP_POWER
  | OP_NOT | OP_NEGATE | OP_INFO
  | OP_JUMP | OP_JUMP_IF_FALSE | OP_LOOP | OP_CALL | OP_RETURN | OP_BREAK | OP_IMPORT

text \<open>
  One byte of a chunk. The numbering of the opcode enumeration is declared outside
  parser.cpp, so an opcode byte is kept symbolic (\<open>Op\<close>); an operand byte is a number
  below 256 (\<open>Raw\<close>).
\<close>

datatype Byte = Op OpCode | Raw nat

text \<open>
  Values of the constant pool and function objects. A function object owns its chunk:
  code, the parallel line table and the constants. A number constant keeps the lexeme
  that \<open>strtod\<close> reads.
\<close>

datatype Value = NUMBER_VAL string | STRING_VAL string | FUNCTION_VAL ObjFunction
  and ObjFunction =
    ObjFunction (fn_name: "string option") (arity: int)
      (code: "Byte list") (lines: "nat list") (constants: "Value list")

datatype FunctionType = TYPE_FUNCTION | TYPE_SCRIPT

record Local =
  name :: Token
  depth :: int

text \<open>
  A Compiler. \<open>local_count\<close> is the length of \<open>locals\<close>; the \<open>enclosing\<close> link is kept
  in the state below as the list of the enclosing compilers, innermost first.
\<close>

record Compiler =
  func :: ObjFunction
  ftype :: FunctionType
  locals :: "Local list"
  scope_depth :: int

text \<open>
  The process-wide state: the parser (\<open>previous\<close>, \<open>current\<close>, \<open>had_error\<close>,
  \<open>panic_mode\<close>), the tokens that the tokenizer has not handed out yet, the global
  \<open>current\<close> compiler (\<open>compiler\<close>) with its chain of enclosing compilers, and the two
  loop-tracking globals. \<open>errors\<close> is the log of the messages that were reported.
\<close>

record State =
  tokens :: "Token list"
  previous :: Token
  current :: Token
  had_error :: bool
  panic_mode :: bool
  errors :: "string list"
  compiler :: Compiler
  enclosing :: "Compiler list"
  inner_most_loop_start :: int
  inner_most_loop_scope_depth :: int

definition UINT8_MAX :: int where
  "UINT8_MAX = 255"

definition UINT16_MAX :: int where
  "UINT16_MAX = 65535"

text \<open>Modelled from the spec: the macro \<open>UINT8_COUNT\<close> is declared outside src/; the
  spec gives the capacity of the local table as 256.\<close>

definition UINT8_COUNT :: int where
  "UINT8_COUNT = 256"

subsection \<open>The parser helper\<close>

text \<open>Modelled from the spec: the Parser class (helper/parser_helper.h) is not under
  src/. A compile error is recorded against the error state and reported; in panic mode
  further errors are suppressed.\<close>

definition error :: "string \<Rightarrow> State \<Rightarrow> State" where
  "error msg st =
     (if panic_mode st then st
      else st\<lparr>had_error := True, panic_mode := True, errors := errors st @ [msg]\<rparr>)"

definition error_at_current :: "string \<Rightarrow> State \<Rightarrow> State" where
  "error_at_current msg st = error msg st"

text \<open>Modelled from the spec: \<open>advance\<close> moves \<open>current\<close> to \<open>previous\<close> and takes the
  next token of the tokenizer, which answers end-of-input for ever once the token list
  is used up.\<close>

definition eof_token :: "nat \<Rightarrow> Token" where
  "eof_token l = \<lparr>kind = EOF_TOKEN, lexeme = [], line = l\<rparr>"

definition advance :: "State \<Rightarrow> State" where
  "advance st =
     (case tokens st of
        [] \<Rightarrow> st\<lparr>previous := current st, current := eof_token (line (current st))\<rparr>
      | t # ts \<Rightarrow> st\<lparr>tokens := ts, previous := current st, current := t\<rparr>)"

definition check :: "TokenKind \<Rightarrow> State \<Rightarrow> bool" where
  "check k st = (kind (current st) = k)"

definition match :: "TokenKind \<Rightarrow> State \<Rightarrow> bool \<times> State" where
  "match k st = (if check k st then (True, advance st) else (False, st))"

definition consume :: "TokenKind \<Rightarrow> string \<Rightarrow> State \<Rightarrow> State" where
  "consume k msg st = (if kind (current st) = k then advance st else error_at_current msg st)"

subsection \<open>Chunks\<close>

text \<open>Modelled from the spec: \<open>write_chunk\<close>, \<open>add_constant\<close> and \<open>new_function\<close> are
  defined outside src/. Writing appends one byte and its line; adding a constant appends
  to the pool and returns the index; a new function has arity 0, no name and an empty
  chunk.\<close>

definition write_chunk :: "ObjFunction \<Rightarrow> Byte \<Rightarrow> nat \<Rightarrow> ObjFunction" where
  "write_chunk f b l =
     ObjFunction (fn_name f) (arity f) (code f @ [b]) (lines f @ [l]) (constants f)"

definition add_constant :: "ObjFunction \<Rightarrow> Value \<Rightarrow> ObjFunction \<times> int" where
  "add_constant f v =
     (ObjFunction (fn_name f) (arity f) (code f) (lines f) (constants f @ [v]),
      int (length (constants f)))"

definition new_function :: ObjFunction where
  "new_function = ObjFunction None 0 [] [] []"

text \<open>\<open>compiling_chunk()->count\<close>\<close>

definition count :: "State \<Rightarrow> int" where
  "count st = int (length (code (func (compiler st))))"

definition local_count :: "State \<Rightarrow> int" where
  "local_count st = int (length (locals (compiler st)))"

definition emit_byte :: "Byte \<Rightarrow> State \<Rightarrow> State" where
  "emit_byte b st =
     st\<lparr>compiler := (compiler st)\<lparr>func := write_chunk (func (compiler st)) b (line (previous st))\<rparr>\<rparr>"

definition emit_bytes :: "Byte \<Rightarrow> Byte \<Rightarrow> State \<Rightarrow> State" where
  "emit_bytes byte1 byte2 st = emit_byte byte2 (emit_byte byte1 st)"

text \<open>A byte operand computed from an \<open>int\<close>: \<open>(x >> 8) & 0xff\<close> and \<open>x & 0xff\<close>,
  and the cast \<open>(uint8_t) x\<close>.\<close>

definition hi_byte :: "int \<Rightarrow> Byte" where
  "hi_byte x = Raw (nat ((x div 256) mod 256))"

definition lo_byte :: "int \<Rightarrow> Byte" where
  "lo_byte x = Raw (nat (x mod 256))"

definition emit_loop :: "int \<Rightarrow> State \<Rightarrow> State" where
  "emit_loop loop_start st =
     (let st1 = emit_byte (Op OP_LOOP) st;
          offset = count st1 - loop_start + 2;
          st2 = (if offset > UINT16_MAX then error ''Loop body too large.'' st1 else st1);
          st3 = emit_byte (hi_byte offset) st2
      in emit_byte (lo_byte offset) st3)"

definition emit_jump :: "OpCode \<Rightarrow> State \<Rightarrow> State \<times> int" where
  "emit_jump instruction st =
     (let st1 = emit_byte (Op instruction) st;
          st2 = emit_byte (Raw 255) st1;
          st3 = emit_byte (Raw 255) st2
      in (st3, count st3 - 2))"

definition make_constant :: "Value \<Rightarrow> State \<Rightarrow> State \<times> int" where
  "make_constant v st =
     (let (f, constant) = add_constant (func (compiler st)) v;
          st1 = st\<lparr>compiler := (compiler st)\<lparr>func := f\<rparr>\<rparr>
      in if constant > UINT8_MAX then (error ''Too many constants in one chunk.'' st1, 0)
         else (st1, constant))"

definition emit_return :: "State \<Rightarrow> State" where
  "emit_return st = emit_byte (Op OP_RETURN) (emit_byte (Op OP_NIL) st)"

definition emit_constant :: "Value \<Rightarrow> State \<Rightarrow> State" where
  "emit_constant v st =
     (let (st1, c) = make_constant v st in emit_bytes (Op OP_CONSTANT) (lo_byte c) st1)"

text \<open>\<open>code[i] = b\<close>. A write outside the chunk is undefined behaviour in the source;
  it is left out here and never happens for an offset that \<open>emit_jump\<close> returned.\<close>

definition set_code :: "int \<Rightarrow> Byte \<Rightarrow> State \<Rightarrow> State" where
  "set_code i b st =
     (if 0 \<le> i \<and> i < count st
      then st\<lparr>compiler := (compiler st)\<lparr>func :=
             (let f = func (compiler st)
              in ObjFunction (fn_name f) (arity f) ((code f)[nat i := b]) (lines f) (constants f))\<rparr>\<rparr>
      else st)"

definition patch_jump :: "int \<Rightarrow> State \<Rightarrow> State" where
  "patch_jump offset st =
     (let jump = count st - offset - 2;
          st1 = (if jump > UINT16_MAX then error ''Too much code to jump over.'' st else st);
          st2 = set_code offset (hi_byte jump) st1
      in set_code (offset + 1) (lo_byte jump) st2)"


definition uint8_t :: "int \<Rightarrow> Byte" where
  "uint8_t x = Raw (nat (x mod 256))"

subsection \<open>Compilers, scopes and locals\<close>

text \<open>The null pointer that \<open>current\<close> holds while nothing is compiled.\<close>

definition null_compiler :: Compiler where
  "null_compiler = \<lparr>func = new_function, ftype = TYPE_SCRIPT, locals = [], scope_depth = 0\<rparr>"

text \<open>The name of slot 0: start \<open>""\<close>, length 0 (kind and line are not set by the
  source and never read).\<close>

definition empty_name :: Token where
  "empty_name = \<lparr>kind = EOF_TOKEN, lexeme = [], line = 0\<rparr>"

definition init_compiler :: "FunctionType \<Rightarrow> State \<Rightarrow> State" where
  "init_compiler type st =
     (let f = (if type \<noteq> TYPE_SCRIPT
               then ObjFunction (Some (lexeme (previous st))) 0 [] [] []
               else new_function)
      in st\<lparr>enclosing := compiler st # enclosing st,
            compiler := \<lparr>func = f, ftype = type,
                          locals = [\<lparr>name = empty_name, depth = 0\<rparr>], scope_depth = 0\<rparr>\<rparr>)"

text \<open>\<open>current = current->enclosing\<close>: with no enclosing compiler \<open>current\<close> becomes
  the null pointer.\<close>

definition end_compiler :: "State \<Rightarrow> State \<times> ObjFunction" where
  "end_compiler st =
     (let st1 = emit_return st;
          function = func (compiler st1)
      in (case enclosing st1 of
            [] \<Rightarrow> st1\<lparr>compiler := null_compiler\<rparr>
          | c # cs \<Rightarrow> st1\<lparr>compiler := c, enclosing := cs\<rparr>,
          function))"

definition begin_scope :: "State \<Rightarrow> State" where
  "begin_scope st = st\<lparr>compiler := (compiler st)\<lparr>scope_depth := scope_depth (compiler st) + 1\<rparr>\<rparr>"

text \<open>\<open>current->local_count--\<close>\<close>

definition drop_local :: "State \<Rightarrow> State" where
  "drop_local st = st\<lparr>compiler := (compiler st)\<lparr>locals := butlast (locals (compiler st))\<rparr>\<rparr>"

function end_scope_loop :: "State \<Rightarrow> State" where
  "end_scope_loop st =
     (if local_count st > 0 \<and> depth (last (locals (compiler st))) > scope_depth (compiler st)
      then end_scope_loop (drop_local (emit_byte (Op OP_POP) st))
      else st)"
  by pat_completeness auto
termination
  by (relation "measure (\<lambda>st. length (locals (compiler st)))")
     (auto simp: drop_local_def emit_byte_def local_count_def)

declare end_scope_loop.simps [simp del]

definition end_scope :: "State \<Rightarrow> State" where
  "end_scope st =
     end_scope_loop (st\<lparr>compiler := (compiler st)\<lparr>scope_depth := scope_depth (compiler st) - 1\<rparr>\<rparr>)"

definition identifier_constant :: "Token \<Rightarrow> State \<Rightarrow> State \<times> int" where
  "identifier_constant nm st = make_constant (STRING_VAL (lexeme nm)) st"

text \<open>Equal length and equal bytes: the two lexemes are the same string.\<close>

definition identifiers_equal :: "Token \<Rightarrow> Token \<Rightarrow> bool" where
  "identifiers_equal a b = (length (lexeme a) = length (lexeme b) \<and> lexeme a = lexeme b)"

text \<open>The loop of \<open>resolve_local\<close>; the argument \<open>Suc i\<close> is the iteration at index \<open>i\<close>.\<close>

fun resolve_local_loop :: "Local list \<Rightarrow> Token \<Rightarrow> nat \<Rightarrow> State \<Rightarrow> int \<times> State" where
  "resolve_local_loop ls nm 0 st = (-1, st)"
| "resolve_local_loop ls nm (Suc i) st =
     (let local = ls ! i
      in if identifiers_equal nm (name local) then (int i, st)
         else resolve_local_loop ls nm i
                (if depth local = -1
                 then error ''Cannot read local variable in its own initializer.'' st
                 else st))"

definition resolve_local :: "Compiler \<Rightarrow> Token \<Rightarrow> State \<Rightarrow> int \<times> State" where
  "resolve_local c nm st = resolve_local_loop (locals c) nm (length (locals c)) st"

definition add_local :: "Token \<Rightarrow> State \<Rightarrow> State" where
  "add_local nm st =
     (if local_count st = UINT8_COUNT
      then error ''Too many local variables in function.'' st
      else st\<lparr>compiler := (compiler st)\<lparr>locals :=
                locals (compiler st) @ [\<lparr>name = nm, depth = -1\<rparr>]\<rparr>\<rparr>)"

text \<open>The loop of \<open>declare_variable\<close>, with its \<open>break\<close>.\<close>

fun declare_variable_loop :: "Local list \<Rightarrow> Token \<Rightarrow> nat \<Rightarrow> State \<Rightarrow> State" where
  "declare_variable_loop ls nm 0 st = st"
| "declare_variable_loop ls nm (Suc i) st =
     (let local = ls ! i
      in if depth local \<noteq> -1 \<and> depth local < scope_depth (compiler st) then st
         else declare_variable_loop ls nm i
                (if identifiers_equal nm (name local)
                 then error ''Already a variable with this name in this scope.'' st
                 else st))"

definition declare_variable :: "State \<Rightarrow> State" where
  "declare_variable st =
     (if scope_depth (compiler st) = 0 then st
      else (let nm = previous st;
                st1 = declare_variable_loop (locals (compiler st)) nm
                        (length (locals (compiler st))) st
            in add_local nm st1))"

definition parser_variable :: "string \<Rightarrow> State \<Rightarrow> State \<times> int" where
  "parser_variable error_msg st =
     (let st1 = consume IDENTIFIER error_msg st;
          st2 = declare_variable st1
      in if scope_depth (compiler st2) > 0 then (st2, 0)
         else identifier_constant (previous st2) st2)"

text \<open>\<open>locals[local_count - 1].depth = scope_depth\<close>; with an empty table the write
  would be out of bounds, which slot 0 rules out.\<close>

definition mark_initialized :: "State \<Rightarrow> State" where
  "mark_initialized st =
     (if scope_depth (compiler st) = 0 then st
      else (let ls = locals (compiler st)
            in if ls = [] then st
               else st\<lparr>compiler := (compiler st)\<lparr>locals :=
                      butlast ls @ [(last ls)\<lparr>depth := scope_depth (compiler st)\<rparr>]\<rparr>\<rparr>))"

definition define_variable :: "int \<Rightarrow> State \<Rightarrow> State" where
  "define_variable global st =
     (if scope_depth (compiler st) > 0 then mark_initialized st
      else emit_bytes (Op OP_DEFINE_GLOBAL) (uint8_t global) st)"


subsection \<open>The rule table\<close>

text \<open>The parse functions that a rule row can hold.\<close>

datatype ParseFn =
    fn_grouping | fn_call | fn_unary | fn_binary | fn_variable
  | fn_string | fn_number | fn_and | fn_or | fn_literal

record ParseRule =
  prefix_rule :: "ParseFn option"
  infix_rule :: "ParseFn option"
  precedence :: nat

text \<open>The enumeration Precedence, in its declared order.\<close>

definition PREC_NONE :: nat where "PREC_NONE = 0"
definition PREC_ASSIGNMENT :: nat where "PREC_ASSIGNMENT = 1"
definition PREC_OR :: nat where "PREC_OR = 2"
definition PREC_AND :: nat where "PREC_AND = 3"
definition PREC_EQUALITY :: nat where "PREC_EQUALITY = 4"
definition PREC_COMPARISON :: nat where "PREC_COMPARISON = 5"
definition PREC_TERM :: nat where "PREC_TERM = 6"
definition PREC_FACTOR :: nat where "PREC_FACTOR = 7"
definition PREC_POWER :: nat where "PREC_POWER = 8"
definition PREC_UNARY :: nat where "PREC_UNARY = 9"
definition PREC_CALL :: nat where "PREC_CALL = 10"


definition rule :: "ParseFn option \<Rightarrow> ParseFn option \<Rightarrow> nat \<Rightarrow> ParseRule" where
  "rule p i pr = \<lparr>prefix_rule = p, infix_rule = i, precedence = pr\<rparr>"

text \<open>Modelled from the spec: the table \<open>rules\<close> is declared outside src/. Each token
  kind has an optional prefix action, an optional infix action and a binding precedence
  of the order NONE < ASSIGNMENT < OR < AND < EQUALITY < COMPARISON < TERM < FACTOR <
  POWER < UNARY < CALL < PRIMARY; the rows are those of the operators that \<open>binary\<close>,
  \<open>unary\<close> and \<open>literal\<close> switch on and of the tokens that start the other parse
  functions of parser.cpp. Every other kind has the empty row.\<close>

fun get_rule :: "TokenKind \<Rightarrow> ParseRule" where
  "get_rule LEFT_PAREN = rule (Some fn_grouping) (Some fn_call) PREC_CALL"
| "get_rule MINUS = rule (Some fn_unary) (Some fn_binary) PREC_TERM"
| "get_rule PLUS = rule None (Some fn_binary) PREC_TERM"
| "get_rule SLASH = rule None (Some fn_binary) PREC_FACTOR"
| "get_rule STAR = rule None (Some fn_binary) PREC_FACTOR"
| "get_rule MODULO = rule None (Some fn_binary) PREC_FACTOR"
| "get_rule POWER = rule None (Some fn_binary) PREC_POWER"
| "get_rule BANG = rule (Some fn_unary) None PREC_NONE"
| "get_rule BANG_EQUAL = rule None (Some fn_binary) PREC_EQUALITY"
| "get_rule EQUAL_EQUAL = rule None (Some fn_binary) PREC_EQUALITY"
| "get_rule GREATER = rule None (Some fn_binary) PREC_COMPARISON"
| "get_rule GREATER_EQUAL = rule None (Some fn_binary) PREC_COMPARISON"
| "get_rule LESS = rule None (Some fn_binary) PREC_COMPARISON"
| "get_rule LESS_EQUAL = rule None (Some fn_binary) PREC_COMPARISON"
| "get_rule IDENTIFIER = rule (Some fn_variable) None PREC_NONE"
| "get_rule STRING = rule (Some fn_string) None PREC_NONE"
| "get_rule NUMBER = rule (Some fn_number) None PREC_NONE"
| "get_rule AND = rule None (Some fn_and) PREC_AND"
| "get_rule OR = rule None (Some fn_or) PREC_OR"
| "get_rule FALSE = rule (Some fn_literal) None PREC_NONE"
| "get_rule TRUE = rule (Some fn_literal) None PREC_NONE"
| "get_rule NIL = rule (Some fn_literal) None PREC_NONE"
| "get_rule _ = rule None None PREC_NONE"

text \<open>Modelled from the spec: the set \<open>return_context\<close> of \<open>synchronize\<close> is declared
  outside src/; it holds the tokens that begin a new declaration or statement.\<close>

definition return_context :: "TokenKind list" where
  "return_context = [FUNC, HAVE, FOR, IF, WHILE, INFO, RETURN]"

subsection \<open>Expressions\<close>

text \<open>The parse functions that do not recurse.\<close>

definition literal :: "State \<Rightarrow> State" where
  "literal st =
     (case kind (previous st) of
        FALSE \<Rightarrow> emit_byte (Op OP_FALSE) st
      | TRUE \<Rightarrow> emit_byte (Op OP_TRUE) st
      | NIL \<Rightarrow> emit_byte (Op OP_NIL) st
      | _ \<Rightarrow> st)"

definition number :: "State \<Rightarrow> State" where
  "number st = emit_constant (NUMBER_VAL (lexeme (previous st))) st"

text \<open>\<open>copy_string(start + 1, length - 2)\<close>: the lexeme without its quotes.\<close>

definition unquote :: "string \<Rightarrow> string" where
  "unquote s = take (length s - 2) (drop 1 s)"

definition string_lit :: "State \<Rightarrow> State" where
  "string_lit st = emit_constant (STRING_VAL (unquote (lexeme (previous st)))) st"

text \<open>The switch at the end of \<open>binary\<close> and of \<open>unary\<close>.\<close>

definition binary_op :: "TokenKind \<Rightarrow> State \<Rightarrow> State" where
  "binary_op operator_type st =
     (case operator_type of
        PLUS \<Rightarrow> emit_byte (Op OP_ADD) st
      | MINUS \<Rightarrow> emit_byte (Op OP_SUBTRACT) st
      | STAR \<Rightarrow> emit_byte (Op OP_MULTIPLY) st
      | SLASH \<Rightarrow> emit_byte (Op OP_DIVIDE) st
      | MODULO \<Rightarrow> emit_byte (Op OP_MODULO) st
      | POWER \<Rightarrow> emit_byte (Op OP_POWER) st
      | BANG_EQUAL \<Rightarrow> emit_bytes (Op OP_EQUAL) (Op OP_NOT) st
      | EQUAL_EQUAL \<Rightarrow> emit_byte (Op OP_EQUAL) st
      | GREATER \<Rightarrow> emit_byte (Op OP_GREATER) st
      | GREATER_EQUAL \<Rightarrow> emit_bytes (Op OP_LESS) (Op OP_NOT) st
      | LESS \<Rightarrow> emit_byte (Op OP_LESS) st
      | LESS_EQUAL \<Rightarrow> emit_bytes (Op OP_GREATER) (Op OP_NOT) st
      | _ \<Rightarrow> st)"

definition unary_op :: "TokenKind \<Rightarrow> State \<Rightarrow> State" where
  "unary_op operator_type st =
     (case operator_type of
        BANG \<Rightarrow> emit_byte (Op OP_NOT) st
      | MINUS \<Rightarrow> emit_byte (Op OP_NEGATE) st
      | _ \<Rightarrow> st)"

text \<open>The head of \<open>named_variable\<close>: the slot of a local, or the constant of a global,
  with the two opcodes.\<close>

definition variable_access :: "Token \<Rightarrow> State \<Rightarrow> State \<times> OpCode \<times> OpCode \<times> int" where
  "variable_access nm st =
     (let (arg, st1) = resolve_local (compiler st) nm st
      in if arg \<noteq> -1 then (st1, OP_GET_LOCAL, OP_SET_LOCAL, arg)
         else (let (st2, c) = identifier_constant nm st1
               in (st2, OP_GET_GLOBAL, OP_SET_GLOBAL, c)))"

text \<open>The tail of \<open>argument_list\<close> and of \<open>call\<close>: the closing parenthesis, then the
  call instruction with the argument count.\<close>

definition finish_call :: "nat \<Rightarrow> State \<Rightarrow> State" where
  "finish_call arg_count st =
     emit_bytes (Op OP_CALL) (Raw arg_count)
       (consume RIGHT_PAREN ''Expected a ')' after arguments'' st)"

text \<open>The end of \<open>parse_precedence\<close>: \<open>if (can_assign && match(EQUAL)) error\<close>.\<close>

definition check_assignment_target :: "bool \<Rightarrow> State \<Rightarrow> State" where
  "check_assignment_target can_assign st =
     (if can_assign
      then (let (m, st1) = match EQUAL st
            in if m then error ''Invalid assignment target.'' st1 else st1)
      else st)"

text \<open>\<open>if (arg_count == 255) error\<close> in the loop of \<open>argument_list\<close>; the count itself
  is a \<open>uint8_t\<close> and wraps.\<close>

definition check_argument_count :: "nat \<Rightarrow> State \<Rightarrow> State" where
  "check_argument_count arg_count st =
     (if arg_count = 255 then error ''Can't have more than 255 arguments'' st else st)"

text \<open>
  The mutually recursive parse functions of the expression level, as one function with a
  bound on the depth of the calls: \<open>None\<close> is a run that needs more calls than the bound.
  \<open>INFIX_LOOP\<close> is the while loop of \<open>parse_precedence\<close>; \<open>ARGUMENTS c\<close> is the
  do-while loop of \<open>argument_list\<close> with \<open>arg_count = c\<close>, followed by what \<open>call\<close>
  does with the count.
\<close>

datatype ExprCall =
    EXPRESSION
  | PARSE_PRECEDENCE nat
  | INFIX_LOOP nat bool
  | PARSE_FN ParseFn bool
  | ARGUMENTS nat

fun expr :: "nat \<Rightarrow> ExprCall \<Rightarrow> State \<Rightarrow> State option" where
  "expr 0 c st = None"
| "expr (Suc n) EXPRESSION st = expr n (PARSE_PRECEDENCE PREC_ASSIGNMENT) st"
| "expr (Suc n) (PARSE_PRECEDENCE prec) st =
     (let st1 = advance st
      in case prefix_rule (get_rule (kind (previous st1))) of
           None \<Rightarrow> Some (error ''Expect expression.'' st1)
         | Some prefix \<Rightarrow>
             (let can_assign = (prec \<le> PREC_ASSIGNMENT)
              in do {
                   st2 \<leftarrow> expr n (PARSE_FN prefix can_assign) st1;
                   st3 \<leftarrow> expr n (INFIX_LOOP prec can_assign) st2;
                   Some (check_assignment_target can_assign st3)
                 }))"
| "expr (Suc n) (INFIX_LOOP prec can_assign) st =
     (if prec \<le> precedence (get_rule (kind (current st)))
      then (let st1 = advance st
            in case infix_rule (get_rule (kind (previous st1))) of
                 None \<Rightarrow> None
               | Some infix_fn \<Rightarrow>
                   do {
                     st2 \<leftarrow> expr n (PARSE_FN infix_fn can_assign) st1;
                     expr n (INFIX_LOOP prec can_assign) st2
                   })
      else Some st)"
| "expr (Suc n) (PARSE_FN fn_grouping can_assign) st =
     do {
       st1 \<leftarrow> expr n EXPRESSION st;
       Some (consume RIGHT_PAREN ''Expect ')' after expression.'' st1)
     }"
| "expr (Suc n) (PARSE_FN fn_unary can_assign) st =
     (let operator_type = kind (previous st)
      in do {
           st1 \<leftarrow> expr n (PARSE_PRECEDENCE PREC_UNARY) st;
           Some (unary_op operator_type st1)
         })"
| "expr (Suc n) (PARSE_FN fn_binary can_assign) st =
     (let operator_type = kind (previous st);
          r = get_rule operator_type
      in do {
           st1 \<leftarrow> expr n (PARSE_PRECEDENCE (precedence r + 1)) st;
           Some (binary_op operator_type st1)
         })"
| "expr (Suc n) (PARSE_FN fn_and can_assign) st =
     (let (st1, end_jump) = emit_jump OP_JUMP_IF_FALSE st;
          st2 = emit_byte (Op OP_POP) st1
      in do {
           st3 \<leftarrow> expr n (PARSE_PRECEDENCE PREC_AND) st2;
           Some (patch_jump end_jump st3)
         })"
| "expr (Suc n) (PARSE_FN fn_or can_assign) st =
     (let (st1, else_jump) = emit_jump OP_JUMP_IF_FALSE st;
          (st2, end_jump) = emit_jump OP_JUMP st1;
          st3 = patch_jump else_jump st2;
          st4 = emit_byte (Op OP_POP) st3
      in do {
           st5 \<leftarrow> expr n (PARSE_PRECEDENCE PREC_OR) st4;
           Some (patch_jump end_jump st5)
         })"
| "expr (Suc n) (PARSE_FN fn_variable can_assign) st =
     (let (st1, get_op, set_op, arg) = variable_access (previous st) st;
          (m, st2) = match EQUAL st1
      in if m \<and> can_assign
         then do {
                st3 \<leftarrow> expr n EXPRESSION st2;
                Some (emit_bytes (Op set_op) (uint8_t arg) st3)
              }
         else Some (emit_bytes (Op get_op) (uint8_t arg) st2))"
| "expr (Suc n) (PARSE_FN fn_number can_assign) st = Some (number st)"
| "expr (Suc n) (PARSE_FN fn_string can_assign) st = Some (string_lit st)"
| "expr (Suc n) (PARSE_FN fn_literal can_assign) st = Some (literal st)"
| "expr (Suc n) (PARSE_FN fn_call can_assign) st =
     (if \<not> check RIGHT_PAREN st then expr n (ARGUMENTS 0) st
      else Some (finish_call 0 st))"
| "expr (Suc n) (ARGUMENTS arg_count) st =
     do {
       st1 \<leftarrow> expr n EXPRESSION st;
       let st2 = check_argument_count arg_count st1;
       let arg_count' = Suc arg_count mod 256;
       let (m, st3) = match COMMA st2;
       if m then expr n (ARGUMENTS arg_count') st3
       else Some (finish_call arg_count' st3)
     }"


subsection \<open>Statements and declarations\<close>

text \<open>The loop of \<open>break_statement\<close> and \<open>continue_statement\<close> that discards the
  locals created in the loop; the argument \<open>Suc i\<close> is the iteration at index \<open>i\<close>.\<close>

fun discard_loop_locals :: "nat \<Rightarrow> State \<Rightarrow> State" where
  "discard_loop_locals 0 st = st"
| "discard_loop_locals (Suc i) st =
     (if depth (locals (compiler st) ! i) > inner_most_loop_scope_depth st
      then discard_loop_locals i (emit_byte (Op OP_POP) st)
      else st)"

definition continue_statement :: "State \<Rightarrow> State" where
  "continue_statement st =
     (if inner_most_loop_start st = -1
      then error ''Cannot use 'continue' outside of a loop.'' st
      else (let st1 = discard_loop_locals (length (locals (compiler st))) st;
                st2 = emit_loop (inner_most_loop_start st1) st1
            in consume SEMICOLON ''Expect ';' after 'continue'.'' st2))"

definition break_statement :: "State \<Rightarrow> State" where
  "break_statement st =
     (if inner_most_loop_start st = -1
      then error ''Cannot use 'break' outside of a loop.'' st
      else (let st1 = discard_loop_locals (length (locals (compiler st))) st;
                st2 = emit_byte (Op OP_BREAK) st1
            in consume SEMICOLON ''Expect ';' after 'break'.'' st2))"

definition using_statement :: "State \<Rightarrow> State" where
  "using_statement st =
     (let st1 = consume STRING ''Expect string after 'using'.'' st;
          moduleName = unquote (lexeme (previous st1));
          st2 = consume SEMICOLON ''Expect ';' after value.'' st1;
          st3 = emit_constant (STRING_VAL moduleName) st2
      in emit_byte (Op OP_IMPORT) st3)"

function synchronize_loop :: "State \<Rightarrow> State" where
  "synchronize_loop st =
     (if kind (current st) \<noteq> EOF_TOKEN
      then (if kind (previous st) = SEMICOLON then st
            else if kind (current st) \<in> set return_context then st
            else synchronize_loop (advance st))
      else st)"
  by pat_completeness auto
termination
  by (relation "measure (\<lambda>st. if kind (current st) = EOF_TOKEN then 0
                               else Suc (length (tokens st)))")
     (auto simp: advance_def eof_token_def split: list.splits)

declare synchronize_loop.simps [simp del]

definition synchronize :: "State \<Rightarrow> State" where
  "synchronize st = synchronize_loop (st\<lparr>panic_mode := False\<rparr>)"

text \<open>\<open>current->function->arity++\<close>\<close>

definition incr_arity :: "State \<Rightarrow> State" where
  "incr_arity st =
     st\<lparr>compiler := (compiler st)\<lparr>func :=
          (let f = func (compiler st)
           in ObjFunction (fn_name f) (arity f + 1) (code f) (lines f) (constants f))\<rparr>\<rparr>"

text \<open>
  The condition clause and the increment clause of \<open>for_statement\<close>. The first returns
  \<open>exit_jump\<close> (-1 without a condition); the second leaves the start of the increment
  in \<open>inner_most_loop_start\<close>.
\<close>

definition for_condition :: "nat \<Rightarrow> State \<Rightarrow> (State \<times> int) option" where
  "for_condition n st =
     (let (m, s) = match SEMICOLON st
      in if \<not> m
         then do {
                s1 \<leftarrow> expr n EXPRESSION s;
                let s2 = consume SEMICOLON ''Expect ';' after loop condition.'' s1;
                let (s3, exit_jump) = emit_jump OP_JUMP_IF_FALSE s2;
                Some (emit_byte (Op OP_POP) s3, exit_jump)
              }
         else Some (s, -1))"

definition for_increment :: "nat \<Rightarrow> State \<Rightarrow> State option" where
  "for_increment n st =
     (let (m, s) = match RIGHT_PAREN st
      in if \<not> m
         then (let (s1, body_jump) = emit_jump OP_JUMP s;
                   increment_start = count s1
               in do {
                    s2 \<leftarrow> expr n EXPRESSION s1;
                    let s3 = emit_byte (Op OP_POP) s2;
                    let s4 = consume RIGHT_PAREN ''Expect ')' after for clauses.'' s3;
                    let s5 = emit_loop (inner_most_loop_start s4) s4;
                    let s6 = s5\<lparr>inner_most_loop_start := increment_start\<rparr>;
                    Some (patch_jump body_jump s6)
                  })
         else Some s)"

text \<open>The end of \<open>for_statement\<close>, after the body: the loop instruction, the patch of
  the exit jump, the surrounding loop restored, the scope closed.\<close>

definition for_end :: "int \<Rightarrow> int \<Rightarrow> int \<Rightarrow> State \<Rightarrow> State" where
  "for_end surrounding_loop_start surrounding_loop_scope exit_jump st =
     (let st1 = emit_loop (inner_most_loop_start st) st;
          st2 = (if exit_jump \<noteq> -1
                 then emit_byte (Op OP_POP) (patch_jump exit_jump st1)
                 else st1);
          st3 = st2\<lparr>inner_most_loop_start := surrounding_loop_start,
                       inner_most_loop_scope_depth := surrounding_loop_scope\<rparr>
      in end_scope st3)"

text \<open>One pass of the do-while loop of \<open>function\<close>: one parameter.\<close>

definition parameter :: "State \<Rightarrow> State" where
  "parameter st =
     (let st1 = incr_arity st;
          st2 = (if arity (func (compiler st1)) > 255
                 then error_at_current ''Can't have more than 255 parameters!'' st1
                 else st1);
          (st3, constant) = parser_variable ''Expected paramerter name!'' st2
      in define_variable constant st3)"

text \<open>
  The mutually recursive functions of the statement level, again with a bound on the
  depth of the calls. A test \<open>parser.match(k)\<close> in a chain of alternatives is written
  \<open>check k\<close>, with \<open>advance\<close> in the branch it selects. \<open>PARAMETERS\<close> is the do-while
  loop of \<open>function\<close>, \<open>DECLARATIONS\<close> the while loop of \<open>compile\<close>. The body of
  \<open>for_statement\<close> is: scope and initializer, the recording of the loop, the two
  clauses above, the statement, the loop instruction, the exit patch and the restoring
  of the surrounding loop.
\<close>

datatype StmtCall =
    DECLARATION | STATEMENT | BLOCK
  | FUNCTION FunctionType | PARAMETERS
  | FUNC_DECLARATION | VAR_DECLARATION | EXPRESSION_STATEMENT
  | FOR_STATEMENT | IF_STATEMENT | INFO_STATEMENT | RETURN_STATEMENT | WHILE_STATEMENT
  | DECLARATIONS

fun stmt :: "nat \<Rightarrow> StmtCall \<Rightarrow> State \<Rightarrow> State option" where
  "stmt 0 c st = None"
| "stmt (Suc n) BLOCK st =
     (if \<not> check RIGHT_BRACE st \<and> \<not> check EOF_TOKEN st
      then do { st1 \<leftarrow> stmt n DECLARATION st; stmt n BLOCK st1 }
      else Some (consume RIGHT_BRACE ''Expect '}' after block.'' st))"
| "stmt (Suc n) (FUNCTION type) st =
     (let st1 = begin_scope (init_compiler type st);
          st2 = consume LEFT_PAREN ''Expected a '(' after a function name!'' st1
      in do {
           st3 \<leftarrow> (if \<not> check RIGHT_PAREN st2 then stmt n PARAMETERS st2 else Some st2);
           let st4 = consume RIGHT_PAREN ''Expected a ')' after parameters!'' st3;
           let st5 = consume LEFT_BRACE ''Expected a '{' after a function body!'' st4;
           st6 \<leftarrow> stmt n BLOCK st5;
           let (st7, function) = end_compiler st6;
           let (st8, c) = make_constant (FUNCTION_VAL function) st7;
           Some (emit_bytes (Op OP_CONSTANT) (uint8_t c) st8)
         })"
| "stmt (Suc n) PARAMETERS st =
     (let st1 = parameter st;
          (m, st2) = match COMMA st1
      in if m then stmt n PARAMETERS st2 else Some st2)"
| "stmt (Suc n) FUNC_DECLARATION st =
     (let (st1, global) = parser_variable ''Expected a function name!'' st;
          st2 = mark_initialized st1
      in do {
           st3 \<leftarrow> stmt n (FUNCTION TYPE_FUNCTION) st2;
           Some (define_variable global st3)
         })"
| "stmt (Suc n) VAR_DECLARATION st =
     (let (st1, global) = parser_variable ''Expect variable name.'' st;
          (m, st2) = match WALRUS st1
      in do {
           st3 \<leftarrow> (if m then expr n EXPRESSION st2 else Some (emit_byte (Op OP_NIL) st2));
           let st4 = consume SEMICOLON ''Expect ';' after variable declaration.'' st3;
           Some (define_variable global st4)
         })"
| "stmt (Suc n) EXPRESSION_STATEMENT st =
     do {
       st1 \<leftarrow> expr n EXPRESSION st;
       let st2 = consume SEMICOLON ''Expect ';' after expression.'' st1;
       Some (emit_byte (Op OP_POP) st2)
     }"
| "stmt (Suc n) FOR_STATEMENT st =
     (let st1 = consume LEFT_PAREN ''Expect '(' after 'for'.'' (begin_scope st)
      in do {
           st2 \<leftarrow> (if check SEMICOLON st1 then Some (advance st1)
                   else if check HAVE st1 then stmt n VAR_DECLARATION (advance st1)
                   else stmt n EXPRESSION_STATEMENT st1);
           let surrounding_loop_start = inner_most_loop_start st2;
           let surrounding_loop_scope = inner_most_loop_scope_depth st2;
           let st3 = st2\<lparr>inner_most_loop_start := count st2,
                          inner_most_loop_scope_depth := scope_depth (compiler st2)\<rparr>;
           (st4, exit_jump) \<leftarrow> for_condition n st3;
           st5 \<leftarrow> for_increment n st4;
           st6 \<leftarrow> stmt n STATEMENT st5;
           Some (for_end surrounding_loop_start surrounding_loop_scope exit_jump st6)
         })"
| "stmt (Suc n) IF_STATEMENT st =
     (let st1 = consume LEFT_PAREN ''Expect '(' after 'if'.'' st
      in do {
           st2 \<leftarrow> expr n EXPRESSION st1;
           let st3 = consume RIGHT_PAREN ''Expect ')' after condition.'' st2;
           let (st4, then_jump) = emit_jump OP_JUMP_IF_FALSE st3;
           let st5 = emit_byte (Op OP_POP) st4;
           st6 \<leftarrow> stmt n STATEMENT st5;
           let (st7, else_jump) = emit_jump OP_JUMP st6;
           let st8 = patch_jump then_jump st7;
           let st9 = emit_byte (Op OP_POP) st8;
           let (m, st10) = match ELSE st9;
           st11 \<leftarrow> (if m then stmt n STATEMENT st10 else Some st10);
           Some (patch_jump else_jump st11)
         })"
| "stmt (Suc n) INFO_STATEMENT st =
     do {
       st1 \<leftarrow> expr n EXPRESSION st;
       let st2 = consume SEMICOLON ''Expect ';' after value.'' st1;
       Some (emit_byte (Op OP_INFO) st2)
     }"
| "stmt (Suc n) RETURN_STATEMENT st =
     (let st1 = (if ftype (compiler st) = TYPE_SCRIPT
                 then error ''Can't return from top-level code!'' st else st);
          (m, st2) = match SEMICOLON st1
      in if m then Some (emit_return st2)
         else do {
                st3 \<leftarrow> expr n EXPRESSION st2;
                let st4 = consume SEMICOLON ''Expected ';' after the return value'' st3;
                Some (emit_byte (Op OP_RETURN) st4)
              })"
| "stmt (Suc n) WHILE_STATEMENT st =
     (let loop_start = count st;
          st1 = consume LEFT_PAREN ''Expect '(' after 'while'.'' st
      in do {
           st2 \<leftarrow> expr n EXPRESSION st1;
           let st3 = consume RIGHT_PAREN ''Expect ')' after condition.'' st2;
           let (st4, exit_jump) = emit_jump OP_JUMP_IF_FALSE st3;
           let st5 = emit_byte (Op OP_POP) st4;
           st6 \<leftarrow> stmt n STATEMENT st5;
           let st7 = emit_loop loop_start st6;
           let st8 = patch_jump exit_jump st7;
           Some (emit_byte (Op OP_POP) st8)
         })"
| "stmt (Suc n) DECLARATION st =
     (if panic_mode st then Some (synchronize st)
      else if check FUNC st then stmt n FUNC_DECLARATION (advance st)
      else if check HAVE st then stmt n VAR_DECLARATION (advance st)
      else stmt n STATEMENT st)"
| "stmt (Suc n) STATEMENT st =
     (if check INFO st then stmt n INFO_STATEMENT (advance st)
      else if check RETURN st then stmt n RETURN_STATEMENT (advance st)
      else if check IF st then stmt n IF_STATEMENT (advance st)
      else if check CONTINUE st then Some (continue_statement (advance st))
      else if check BREAK st then Some (break_statement (advance st))
      else if check WHILE st then stmt n WHILE_STATEMENT (advance st)
      else if check FOR st then stmt n FOR_STATEMENT (advance st)
      else if check USING st then Some (using_statement (advance st))
      else if check LEFT_BRACE st
      then do {
             st1 \<leftarrow> stmt n BLOCK (begin_scope (advance st));
             Some (end_scope st1)
           }
      else stmt n EXPRESSION_STATEMENT st)"
| "stmt (Suc n) DECLARATIONS st =
     (let (m, st1) = match EOF_TOKEN st
      in if \<not> m then do { st2 \<leftarrow> stmt n DECLARATION st1; stmt n DECLARATIONS st2 }
         else Some st1)"

subsection \<open>The calls of a run\<close>

text \<open>
  The runs of the two functions as relations between the state before a call and the
  state after it: one rule for each path through each parse function. They are shown
  below to relate exactly the states that \<open>expr\<close> and \<open>stmt\<close> relate for some bound.
\<close>

inductive expr_run :: "ExprCall \<Rightarrow> State \<Rightarrow> State \<Rightarrow> bool" where
  run_expression:
    "expr_run (PARSE_PRECEDENCE PREC_ASSIGNMENT) st st' \<Longrightarrow> expr_run EXPRESSION st st'"
| run_no_prefix:
    "prefix_rule (get_rule (kind (previous (advance st)))) = None \<Longrightarrow>
     expr_run (PARSE_PRECEDENCE prec) st (error ''Expect expression.'' (advance st))"
| run_prefix:
    "prefix_rule (get_rule (kind (previous (advance st)))) = Some prefix \<Longrightarrow>
     expr_run (PARSE_FN prefix (prec \<le> PREC_ASSIGNMENT)) (advance st) st2 \<Longrightarrow>
     expr_run (INFIX_LOOP prec (prec \<le> PREC_ASSIGNMENT)) st2 st3 \<Longrightarrow>
     expr_run (PARSE_PRECEDENCE prec) st
       (check_assignment_target (prec \<le> PREC_ASSIGNMENT) st3)"
| run_infix_done:
    "\<not> prec \<le> precedence (get_rule (kind (current st))) \<Longrightarrow>
     expr_run (INFIX_LOOP prec can_assign) st st"
| run_infix:
    "prec \<le> precedence (get_rule (kind (current st))) \<Longrightarrow>
     infix_rule (get_rule (kind (previous (advance st)))) = Some infix_fn \<Longrightarrow>
     expr_run (PARSE_FN infix_fn can_assign) (advance st) st2 \<Longrightarrow>
     expr_run (INFIX_LOOP prec can_assign) st2 st' \<Longrightarrow>
     expr_run (INFIX_LOOP prec can_assign) st st'"
| run_grouping:
    "expr_run EXPRESSION st st1 \<Longrightarrow>
     expr_run (PARSE_FN fn_grouping can_assign) st
       (consume RIGHT_PAREN ''Expect ')' after expression.'' st1)"
| run_unary:
    "expr_run (PARSE_PRECEDENCE PREC_UNARY) st st1 \<Longrightarrow>
     expr_run (PARSE_FN fn_unary can_assign) st (unary_op (kind (previous st)) st1)"
| run_binary:
    "expr_run (PARSE_PRECEDENCE (precedence (get_rule (kind (previous st))) + 1)) st st1 \<Longrightarrow>
     expr_run (PARSE_FN fn_binary can_assign) st (binary_op (kind (previous st)) st1)"
| run_and:
    "ej = emit_jump OP_JUMP_IF_FALSE st \<Longrightarrow>
     expr_run (PARSE_PRECEDENCE PREC_AND) (emit_byte (Op OP_POP) (fst ej)) st3 \<Longrightarrow>
     expr_run (PARSE_FN fn_and can_assign) st (patch_jump (snd ej) st3)"
| run_or:
    "ej = emit_jump OP_JUMP_IF_FALSE st \<Longrightarrow>
     nj = emit_jump OP_JUMP (fst ej) \<Longrightarrow>
     expr_run (PARSE_PRECEDENCE PREC_OR)
       (emit_byte (Op OP_POP) (patch_jump (snd ej) (fst nj))) st5 \<Longrightarrow>
     expr_run (PARSE_FN fn_or can_assign) st (patch_jump (snd nj) st5)"
| run_variable_get:
    "va = variable_access (previous st) st \<Longrightarrow>
     m = match EQUAL (fst va) \<Longrightarrow>
     \<not> (fst m \<and> can_assign) \<Longrightarrow>
     expr_run (PARSE_FN fn_variable can_assign) st
       (emit_bytes (Op (fst (snd va))) (uint8_t (snd (snd (snd va)))) (snd m))"
| run_variable_set:
    "va = variable_access (previous st) st \<Longrightarrow>
     m = match EQUAL (fst va) \<Longrightarrow>
     fst m \<and> can_assign \<Longrightarrow>
     expr_run EXPRESSION (snd m) st3 \<Longrightarrow>
     expr_run (PARSE_FN fn_variable can_assign) st
       (emit_bytes (Op (fst (snd (snd va)))) (uint8_t (snd (snd (snd va)))) st3)"
| run_number:
    "expr_run (PARSE_FN fn_number can_assign) st (number st)"
| run_string:
    "expr_run (PARSE_FN fn_string can_assign) st (string_lit st)"
| run_literal:
    "expr_run (PARSE_FN fn_literal can_assign) st (literal st)"
| run_call_empty:
    "check RIGHT_PAREN st \<Longrightarrow>
     expr_run (PARSE_FN fn_call can_assign) st (finish_call 0 st)"
| run_call:
    "\<not> check RIGHT_PAREN st \<Longrightarrow>
     expr_run (ARGUMENTS 0) st st' \<Longrightarrow>
     expr_run (PARSE_FN fn_call can_assign) st st'"
| run_arguments_last:
    "expr_run EXPRESSION st st1 \<Longrightarrow>
     m = match COMMA (check_argument_count arg_count st1) \<Longrightarrow>
     \<not> fst m \<Longrightarrow>
     expr_run (ARGUMENTS arg_count) st (finish_call (Suc arg_count mod 256) (snd m))"
| run_arguments_more:
    "expr_run EXPRESSION st st1 \<Longrightarrow>
     m = match COMMA (check_argument_count arg_count st1) \<Longrightarrow>
     fst m \<Longrightarrow>
     expr_run (ARGUMENTS (Suc arg_count mod 256)) (snd m) st' \<Longrightarrow>
     expr_run (ARGUMENTS arg_count) st st'"

inductive for_condition_run :: "State \<Rightarrow> State \<Rightarrow> int \<Rightarrow> bool" where
  run_no_condition:
    "fst (match SEMICOLON st) \<Longrightarrow> for_condition_run st (snd (match SEMICOLON st)) (-1)"
| run_condition:
    "\<not> fst (match SEMICOLON st) \<Longrightarrow>
     expr_run EXPRESSION (snd (match SEMICOLON st)) s1 \<Longrightarrow>
     ej = emit_jump OP_JUMP_IF_FALSE
            (consume SEMICOLON ''Expect ';' after loop condition.'' s1) \<Longrightarrow>
     for_condition_run st (emit_byte (Op OP_POP) (fst ej)) (snd ej)"

inductive for_increment_run :: "State \<Rightarrow> State \<Rightarrow> bool" where
  run_no_increment:
    "fst (match RIGHT_PAREN st) \<Longrightarrow> for_increment_run st (snd (match RIGHT_PAREN st))"
| run_increment:
    "\<not> fst (match RIGHT_PAREN st) \<Longrightarrow>
     bj = emit_jump OP_JUMP (snd (match RIGHT_PAREN st)) \<Longrightarrow>
     expr_run EXPRESSION (fst bj) s2 \<Longrightarrow>
     s4 = consume RIGHT_PAREN ''Expect ')' after for clauses.'' (emit_byte (Op OP_POP) s2) \<Longrightarrow>
     s6 = (emit_loop (inner_most_loop_start s4) s4)\<lparr>inner_most_loop_start := count (fst bj)\<rparr> \<Longrightarrow>
     for_increment_run st (patch_jump (snd bj) s6)"

inductive stmt_run :: "StmtCall \<Rightarrow> State \<Rightarrow> State \<Rightarrow> bool" where
  run_block_end:
    "check RIGHT_BRACE st \<or> check EOF_TOKEN st \<Longrightarrow>
     stmt_run BLOCK st (consume RIGHT_BRACE ''Expect '}' after block.'' st)"
| run_block:
    "\<not> check RIGHT_BRACE st \<Longrightarrow> \<not> check EOF_TOKEN st \<Longrightarrow>
     stmt_run DECLARATION st st1 \<Longrightarrow>
     stmt_run BLOCK st1 st' \<Longrightarrow>
     stmt_run BLOCK st st'"
| run_function:
    "st2 = consume LEFT_PAREN ''Expected a '(' after a function name!''
             (begin_scope (init_compiler type st)) \<Longrightarrow>
     (\<not> check RIGHT_PAREN st2 \<and> stmt_run PARAMETERS st2 st3) \<or>
     (check RIGHT_PAREN st2 \<and> st3 = st2) \<Longrightarrow>
     stmt_run BLOCK
       (consume LEFT_BRACE ''Expected a '{' after a function body!''
          (consume RIGHT_PAREN ''Expected a ')' after parameters!'' st3)) st6 \<Longrightarrow>
     ec = end_compiler st6 \<Longrightarrow>
     mc = make_constant (FUNCTION_VAL (snd ec)) (fst ec) \<Longrightarrow>
     stmt_run (FUNCTION type) st (emit_bytes (Op OP_CONSTANT) (uint8_t (snd mc)) (fst mc))"
| run_parameters_last:
    "\<not> fst (match COMMA (parameter st)) \<Longrightarrow>
     stmt_run PARAMETERS st (snd (match COMMA (parameter st)))"
| run_parameters_more:
    "fst (match COMMA (parameter st)) \<Longrightarrow>
     stmt_run PARAMETERS (snd (match COMMA (parameter st))) st' \<Longrightarrow>
     stmt_run PARAMETERS st st'"
| run_func_declaration:
    "pv = parser_variable ''Expected a function name!'' st \<Longrightarrow>
     stmt_run (FUNCTION TYPE_FUNCTION) (mark_initialized (fst pv)) st3 \<Longrightarrow>
     stmt_run FUNC_DECLARATION st (define_variable (snd pv) st3)"
| run_var_declaration:
    "pv = parser_variable ''Expect variable name.'' st \<Longrightarrow>
     m = match WALRUS (fst pv) \<Longrightarrow>
     (fst m \<and> expr_run EXPRESSION (snd m) st3) \<or>
     (\<not> fst m \<and> st3 = emit_byte (Op OP_NIL) (snd m)) \<Longrightarrow>
     stmt_run VAR_DECLARATION st
       (define_variable (snd pv)
          (consume SEMICOLON ''Expect ';' after variable declaration.'' st3))"
| run_expression_statement:
    "expr_run EXPRESSION st st1 \<Longrightarrow>
     stmt_run EXPRESSION_STATEMENT st
       (emit_byte (Op OP_POP) (consume SEMICOLON ''Expect ';' after expression.'' st1))"
| run_for_statement:
    "st1 = consume LEFT_PAREN ''Expect '(' after 'for'.'' (begin_scope st) \<Longrightarrow>
     (check SEMICOLON st1 \<and> st2 = advance st1) \<or>
     (\<not> check SEMICOLON st1 \<and> check HAVE st1 \<and>
        stmt_run VAR_DECLARATION (advance st1) st2) \<or>
     (\<not> check SEMICOLON st1 \<and> \<not> check HAVE st1 \<and>
        stmt_run EXPRESSION_STATEMENT st1 st2) \<Longrightarrow>
     for_condition_run
       (st2\<lparr>inner_most_loop_start := count st2,
             inner_most_loop_scope_depth := scope_depth (compiler st2)\<rparr>) st4 exit_jump \<Longrightarrow>
     for_increment_run st4 st5 \<Longrightarrow>
     stmt_run STATEMENT st5 st6 \<Longrightarrow>
     stmt_run FOR_STATEMENT st
       (for_end (inner_most_loop_start st2) (inner_most_loop_scope_depth st2) exit_jump st6)"
| run_if_statement:
    "expr_run EXPRESSION (consume LEFT_PAREN ''Expect '(' after 'if'.'' st) st2 \<Longrightarrow>
     tj = emit_jump OP_JUMP_IF_FALSE
            (consume RIGHT_PAREN ''Expect ')' after condition.'' st2) \<Longrightarrow>
     stmt_run STATEMENT (emit_byte (Op OP_POP) (fst tj)) st6 \<Longrightarrow>
     ej = emit_jump OP_JUMP st6 \<Longrightarrow>
     m = match ELSE (emit_byte (Op OP_POP) (patch_jump (snd tj) (fst ej))) \<Longrightarrow>
     (fst m \<and> stmt_run STATEMENT (snd m) st11) \<or> (\<not> fst m \<and> st11 = snd m) \<Longrightarrow>
     stmt_run IF_STATEMENT st (patch_jump (snd ej) st11)"
| run_info_statement:
    "expr_run EXPRESSION st st1 \<Longrightarrow>
     stmt_run INFO_STATEMENT st
       (emit_byte (Op OP_INFO) (consume SEMICOLON ''Expect ';' after value.'' st1))"
| run_return_nil:
    "st1 = (if ftype (compiler st) = TYPE_SCRIPT
            then error ''Can't return from top-level code!'' st else st) \<Longrightarrow>
     fst (match SEMICOLON st1) \<Longrightarrow>
     stmt_run RETURN_STATEMENT st (emit_return (snd (match SEMICOLON st1)))"
| run_return_value:
    "st1 = (if ftype (compiler st) = TYPE_SCRIPT
            then error ''Can't return from top-level code!'' st else st) \<Longrightarrow>
     \<not> fst (match SEMICOLON st1) \<Longrightarrow>
     expr_run EXPRESSION (snd (match SEMICOLON st1)) st3 \<Longrightarrow>
     stmt_run RETURN_STATEMENT st
       (emit_byte (Op OP_RETURN)
          (consume SEMICOLON ''Expected ';' after the return value'' st3))"
| run_while_statement:
    "expr_run EXPRESSION (consume LEFT_PAREN ''Expect '(' after 'while'.'' st) st2 \<Longrightarrow>
     xj = emit_jump OP_JUMP_IF_FALSE
            (consume RIGHT_PAREN ''Expect ')' after condition.'' st2) \<Longrightarrow>
     stmt_run STATEMENT (emit_byte (Op OP_POP) (fst xj)) st6 \<Longrightarrow>
     stmt_run WHILE_STATEMENT st
       (emit_byte (Op OP_POP) (patch_jump (snd xj) (emit_loop (count st) st6)))"
| run_synchronize:
    "panic_mode st \<Longrightarrow> stmt_run DECLARATION st (synchronize st)"
| run_declare_func:
    "\<not> panic_mode st \<Longrightarrow> check FUNC st \<Longrightarrow>
     stmt_run FUNC_DECLARATION (advance st) st' \<Longrightarrow> stmt_run DECLARATION st st'"
| run_declare_var:
    "\<not> panic_mode st \<Longrightarrow> \<not> check FUNC st \<Longrightarrow> check HAVE st \<Longrightarrow>
     stmt_run VAR_DECLARATION (advance st) st' \<Longrightarrow> stmt_run DECLARATION st st'"
| run_declare_statement:
    "\<not> panic_mode st \<Longrightarrow> \<not> check FUNC st \<Longrightarrow> \<not> check HAVE st \<Longrightarrow>
     stmt_run STATEMENT st st' \<Longrightarrow> stmt_run DECLARATION st st'"
| run_info:
    "check INFO st \<Longrightarrow> stmt_run INFO_STATEMENT (advance st) st' \<Longrightarrow>
     stmt_run STATEMENT st st'"
| run_return:
    "check RETURN st \<Longrightarrow> stmt_run RETURN_STATEMENT (advance st) st' \<Longrightarrow>
     stmt_run STATEMENT st st'"
| run_if:
    "check IF st \<Longrightarrow> stmt_run IF_STATEMENT (advance st) st' \<Longrightarrow>
     stmt_run STATEMENT st st'"
| run_continue:
    "check CONTINUE st \<Longrightarrow> stmt_run STATEMENT st (continue_statement (advance st))"
| run_break:
    "check BREAK st \<Longrightarrow> stmt_run STATEMENT st (break_statement (advance st))"
| run_while:
    "check WHILE st \<Longrightarrow> stmt_run WHILE_STATEMENT (advance st) st' \<Longrightarrow>
     stmt_run STATEMENT st st'"
| run_for:
    "check FOR st \<Longrightarrow> stmt_run FOR_STATEMENT (advance st) st' \<Longrightarrow>
     stmt_run STATEMENT st st'"
| run_using:
    "check USING st \<Longrightarrow> stmt_run STATEMENT st (using_statement (advance st))"
| run_braces:
    "check LEFT_BRACE st \<Longrightarrow> stmt_run BLOCK (begin_scope (advance st)) st1 \<Longrightarrow>
     stmt_run STATEMENT st (end_scope st1)"
| run_other:
    "kind (current st) \<notin> set [INFO, RETURN, IF, CONTINUE, BREAK, WHILE, FOR, USING, LEFT_BRACE] \<Longrightarrow>
     stmt_run EXPRESSION_STATEMENT st st' \<Longrightarrow> stmt_run STATEMENT st st'"
| run_declarations_end:
    "fst (match EOF_TOKEN st) \<Longrightarrow> stmt_run DECLARATIONS st (snd (match EOF_TOKEN st))"
| run_declarations:
    "\<not> fst (match EOF_TOKEN st) \<Longrightarrow>
     stmt_run DECLARATION (snd (match EOF_TOKEN st)) st2 \<Longrightarrow>
     stmt_run DECLARATIONS st2 st' \<Longrightarrow>
     stmt_run DECLARATIONS st st'"

subsection \<open>The compile entry point\<close>

text \<open>Modelled from the spec: the tokenizer is an external collaborator, so the source
  text is given as the tokens that \<open>init_tokenizer\<close> and the scanner make of it (without
  the closing end-of-input token). The globals \<open>inner_most_loop_start\<close> and
  \<open>inner_most_loop_scope_depth\<close> are declared outside src/; no loop start is recorded
  (-1) when compilation begins.\<close>

definition init_tokenizer :: "Token list \<Rightarrow> State" where
  "init_tokenizer source =
     \<lparr>tokens = source, previous = eof_token 0, current = eof_token 0,
      had_error = False, panic_mode = False, errors = [],
      compiler = null_compiler, enclosing = [],
      inner_most_loop_start = -1, inner_most_loop_scope_depth = 0\<rparr>"

text \<open>The state in which \<open>compile\<close> returns, with the function of \<open>end_compiler\<close>.\<close>

definition compile_run :: "nat \<Rightarrow> Token list \<Rightarrow> (State \<times> ObjFunction) option" where
  "compile_run n source =
     (let st0 = init_tokenizer source;
          st1 = init_compiler TYPE_SCRIPT st0;
          st2 = st1\<lparr>had_error := False, panic_mode := False\<rparr>;
          st3 = advance st2
      in do {
           st4 \<leftarrow> stmt n DECLARATIONS st3;
           Some (end_compiler st4)
         })"

text \<open>\<open>compile\<close>: the inner \<open>None\<close> is the null pointer that reports failure.\<close>

definition compile :: "nat \<Rightarrow> Token list \<Rightarrow> ObjFunction option option" where
  "compile n source =
     map_option (\<lambda>(st, function). if had_error st then None else Some function)
       (compile_run n source)"



section \<open>Example programs\<close>

text \<open>A token of line 1.\<close>

definition tok :: "TokenKind \<Rightarrow> string \<Rightarrow> Token" where
  "tok k s = \<lparr>kind = k, lexeme = s, line = 1\<rparr>"

text \<open>\<open>{ have x := x; }\<close> and \<open>have x := x;\<close>: the initializer, introduced by the token
  that \<open>var_declaration\<close> matches, reads the variable being declared.\<close>

definition self_init_local :: "Token list" where
  "self_init_local =
     [tok LEFT_BRACE ''{'', tok HAVE ''have'', tok IDENTIFIER ''x'', tok WALRUS '':='',
      tok IDENTIFIER ''x'', tok SEMICOLON '';'', tok RIGHT_BRACE ''}'']"

definition self_init_global :: "Token list" where
  "self_init_global =
     [tok HAVE ''have'', tok IDENTIFIER ''x'', tok WALRUS '':='',
      tok IDENTIFIER ''x'', tok SEMICOLON '';'']"

text \<open>The same two programs written with the token \<open>=\<close>.\<close>

definition self_init_local_equal :: "Token list" where
  "self_init_local_equal =
     [tok LEFT_BRACE ''{'', tok HAVE ''have'', tok IDENTIFIER ''x'', tok EQUAL ''='',
      tok IDENTIFIER ''x'', tok SEMICOLON '';'', tok RIGHT_BRACE ''}'']"

definition self_init_global_equal :: "Token list" where
  "self_init_global_equal =
     [tok HAVE ''have'', tok IDENTIFIER ''x'', tok EQUAL ''='',
      tok IDENTIFIER ''x'', tok SEMICOLON '';'']"

text \<open>\<open>{ have x := y; }\<close>: the initializer reads another variable, which is no local.\<close>

definition other_init_local :: "Token list" where
  "other_init_local =
     [tok LEFT_BRACE ''{'', tok HAVE ''have'', tok IDENTIFIER ''x'', tok WALRUS '':='',
      tok IDENTIFIER ''y'', tok SEMICOLON '';'', tok RIGHT_BRACE ''}'']"

text \<open>\<open>a + b = c;\<close>, \<open>a + b = ;\<close> and \<open>a + 1 = c;\<close>\<close>

definition assign_to_sum :: "Token list" where
  "assign_to_sum =
     [tok IDENTIFIER ''a'', tok PLUS ''+'', tok IDENTIFIER ''b'', tok EQUAL ''='',
      tok IDENTIFIER ''c'', tok SEMICOLON '';'']"

definition assign_to_sum_nothing :: "Token list" where
  "assign_to_sum_nothing =
     [tok IDENTIFIER ''a'', tok PLUS ''+'', tok IDENTIFIER ''b'', tok EQUAL ''='',
      tok SEMICOLON '';'']"

definition assign_to_sum_number :: "Token list" where
  "assign_to_sum_number =
     [tok IDENTIFIER ''a'', tok PLUS ''+'', tok NUMBER ''1'', tok EQUAL ''='',
      tok IDENTIFIER ''c'', tok SEMICOLON '';'']"


text \<open>States for the operations on scopes and locals: a fresh script compiler, and one
  with the locals \<open>a\<close> at depth 1 and \<open>b\<close>, \<open>c\<close> at depth 2 behind slot 0.\<close>

definition fresh_script :: State where
  "fresh_script = init_compiler TYPE_SCRIPT (init_tokenizer [])"

definition declare_local :: "string \<Rightarrow> State \<Rightarrow> State" where
  "declare_local x st = mark_initialized (add_local (tok IDENTIFIER x) st)"

definition nested_locals :: State where
  "nested_locals =
     declare_local ''c'' (declare_local ''b''
       (begin_scope (declare_local ''a'' (begin_scope fresh_script))))"

text \<open>A chunk of 65540 bytes.\<close>

definition long_chunk :: State where
  "long_chunk =
     fresh_script\<lparr>compiler := (compiler fresh_script)\<lparr>func :=
        ObjFunction None 0 (replicate 65540 (Op OP_NIL)) (replicate 65540 1) []\<rparr>\<rparr>"

text \<open>The parser behind the name of a declaration: \<open>b\<close> again at depth 2, \<open>a\<close> again
  at depth 2, and \<open>a\<close> at global scope.\<close>

definition redeclare_b :: State where
  "redeclare_b = nested_locals\<lparr>previous := tok IDENTIFIER ''b''\<rparr>"

definition shadow_a :: State where
  "shadow_a = nested_locals\<lparr>previous := tok IDENTIFIER ''a''\<rparr>"

definition global_a :: State where
  "global_a = fresh_script\<lparr>previous := tok IDENTIFIER ''a''\<rparr>"

text \<open>What a run of \<open>compile\<close> reported, and the code of the function it built.\<close>

definition reported :: "nat \<Rightarrow> Token list \<Rightarrow> string list option" where
  "reported n source = map_option (\<lambda>(st, function). errors st) (compile_run n source)"

definition compiled_code :: "nat \<Rightarrow> Token list \<Rightarrow> Byte list option" where
  "compiled_code n source = map_option (\<lambda>(st, function). code function) (compile_run n source)"


text \<open>\<open>info 1; info 2; for (;;) { func f() { continue; } }\<close>: a \<open>continue\<close> in a function
  that is declared in the body of a loop, and \<open>while (true) { break; }\<close>.\<close>

definition nested_continue :: "Token list" where
  "nested_continue =
     [tok INFO ''info'', tok NUMBER ''1'', tok SEMICOLON '';'',
      tok INFO ''info'', tok NUMBER ''2'', tok SEMICOLON '';'',
      tok FOR ''for'', tok LEFT_PAREN ''('', tok SEMICOLON '';'', tok SEMICOLON '';'',
      tok RIGHT_PAREN '')'', tok LEFT_BRACE ''{'',
      tok FUNC ''func'', tok IDENTIFIER ''f'', tok LEFT_PAREN ''('', tok RIGHT_PAREN '')'',
      tok LEFT_BRACE ''{'', tok CONTINUE ''continue'', tok SEMICOLON '';'',
      tok RIGHT_BRACE ''}'', tok RIGHT_BRACE ''}'']"

definition break_in_while :: "Token list" where
  "break_in_while =
     [tok WHILE ''while'', tok LEFT_PAREN ''('', tok TRUE ''true'', tok RIGHT_PAREN '')'',
      tok LEFT_BRACE ''{'', tok BREAK ''break'', tok SEMICOLON '';'', tok RIGHT_BRACE ''}'']"

text \<open>The code of the functions in the constant pool of the function that a run of
  \<open>compile\<close> built.\<close>

fun function_constants :: "Value list \<Rightarrow> ObjFunction list" where
  "function_constants [] = []"
| "function_constants (FUNCTION_VAL f # vs) = f # function_constants vs"
| "function_constants (v # vs) = function_constants vs"

definition compiled_functions :: "nat \<Rightarrow> Token list \<Rightarrow> Byte list list option" where
  "compiled_functions n source =
     map_option (\<lambda>(st, function). map code (function_constants (constants function)))
       (compile_run n source)"

section \<open>Auxiliary notions\<close>

text \<open>The code of the chunk that is being compiled.\<close>

definition chunk_code :: "State \<Rightarrow> Byte list" where
  "chunk_code st = code (func (compiler st))"

text \<open>Modelled from the spec: the instruction set gives a jump a two-byte big-endian
  operand; this is the value that the virtual machine reads at offset \<open>i\<close>.\<close>

definition read_short :: "Byte list \<Rightarrow> int \<Rightarrow> int" where
  "read_short bs i =
     (case (bs ! nat i, bs ! nat (i + 1)) of
        (Raw h, Raw l) \<Rightarrow> int h * 256 + int l
      | _ \<Rightarrow> -1)"


definition finish_compile :: "State \<Rightarrow> ObjFunction option" where
  "finish_compile st =
     (let (st', function) = end_compiler st in if had_error st' then None else Some function)"

text \<open>The number of locals at the end of the table that are deeper than depth \<open>d\<close>.\<close>

definition scope_exit_count :: "int \<Rightarrow> Local list \<Rightarrow> nat" where
  "scope_exit_count d ls = length (takeWhile (\<lambda>l. depth l > d) (rev ls))"

text \<open>The locals that the scan of \<open>declare_variable\<close> visits at scope depth \<open>d\<close>, most
  recent first, and whether one of them has the name \<open>nm\<close>.\<close>

definition same_scope_locals :: "int \<Rightarrow> Local list \<Rightarrow> Local list" where
  "same_scope_locals d ls = takeWhile (\<lambda>l. \<not> (depth l \<noteq> -1 \<and> depth l < d)) (rev ls)"

definition redeclared :: "Token \<Rightarrow> int \<Rightarrow> Local list \<Rightarrow> bool" where
  "redeclared nm d ls = (\<exists>l \<in> set (same_scope_locals d ls). lexeme (name l) = lexeme nm)"

text \<open>
  Two classes of state predicates. The first holds the predicates that survive what the
  expression level does to the state: taking a token, reporting an error, leaving
  panic mode and changing the function of the current compiler. The second holds
  those that survive every change of the compiler side as well.
\<close>

definition expr_pred :: "(State \<Rightarrow> bool) \<Rightarrow> bool" where
  "expr_pred P \<longleftrightarrow>
     (\<forall>st. P st \<longrightarrow> P (advance st)) \<and>
     (\<forall>msg st. P st \<longrightarrow> P (error msg st)) \<and>
     (\<forall>st. P st \<longrightarrow> P (st\<lparr>panic_mode := False\<rparr>)) \<and>
     (\<forall>st f. P st \<longrightarrow> P (st\<lparr>compiler := (compiler st)\<lparr>func := f\<rparr>\<rparr>))"

definition parser_pred :: "(State \<Rightarrow> bool) \<Rightarrow> bool" where
  "parser_pred P \<longleftrightarrow>
     (\<forall>st. P st \<longrightarrow> P (advance st)) \<and>
     (\<forall>msg st. P st \<longrightarrow> P (error msg st)) \<and>
     (\<forall>st c. P st \<longrightarrow> P (st\<lparr>compiler := c\<rparr>)) \<and>
     (\<forall>st e. P st \<longrightarrow> P (st\<lparr>enclosing := e\<rparr>)) \<and>
     (\<forall>st x. P st \<longrightarrow> P (st\<lparr>inner_most_loop_start := x\<rparr>)) \<and>
     (\<forall>st x. P st \<longrightarrow> P (st\<lparr>inner_most_loop_scope_depth := x\<rparr>)) \<and>
     (\<forall>st. P st \<longrightarrow> P (st\<lparr>panic_mode := False\<rparr>))"

text \<open>The error state is consistent: the flag is set exactly when an error was
  reported, and panic mode implies the flag.\<close>

definition error_state_ok :: "State \<Rightarrow> bool" where
  "error_state_ok st \<longleftrightarrow>
     (had_error st \<longleftrightarrow> errors st \<noteq> []) \<and> (panic_mode st \<longrightarrow> had_error st)"


subsection \<open>A bound on the depth of the calls\<close>

text \<open>
  What is left of the input: two for each token that the tokenizer still holds, one for
  a current token that is not end-of-input. \<open>advance\<close> never raises it and lowers it
  whenever the current token is not end-of-input.
\<close>

definition remaining :: "State \<Rightarrow> nat" where
  "remaining st =
     2 * length (tokens st) + (if kind (current st) = EOF_TOKEN then 0 else 1)"












subsection \<open>Scopes and enclosing compilers\<close>



text \<open>The constant pool of the chunk that is being compiled.\<close>

definition pool :: "State \<Rightarrow> Value list" where
  "pool st = constants (func (compiler st))"



section \<open>The relations hold of every run\<close>


lemma expr_sound: "expr n c st = Some st' \<Longrightarrow> expr_run c st st'"
proof (induction n arbitrary: c st st')
  case 0
  then show ?case by simp
next
  case (Suc n)
  note IH = Suc.IH
  note run = Suc.prems
  show ?case
  proof (cases c)
    case EXPRESSION
    with run IH show ?thesis by (auto intro: expr_run.intros)
  next
    case (PARSE_PRECEDENCE prec)
    with run show ?thesis
      by (auto simp: Let_def bind_eq_Some_conv split: option.splits dest!: IH intro: expr_run.intros)
  next
    case (INFIX_LOOP prec b)
    with run IH show ?thesis
      by (auto simp: Let_def bind_eq_Some_conv split: option.splits if_splits intro: expr_run.intros)
  next
    case (PARSE_FN fn b)
    show ?thesis
    proof (cases fn)
      case fn_grouping
      with run PARSE_FN IH show ?thesis
        by (auto simp: bind_eq_Some_conv intro: expr_run.intros)
    next
      case fn_call
      with run PARSE_FN IH show ?thesis
        by (auto split: if_splits intro: expr_run.intros)
    next
      case fn_unary
      with run PARSE_FN IH show ?thesis
        by (auto simp: bind_eq_Some_conv Let_def intro: expr_run.intros)
    next
      case fn_binary
      with run PARSE_FN IH show ?thesis
        by (auto simp: bind_eq_Some_conv Let_def intro: expr_run.intros)
    next
      case fn_variable
      with run PARSE_FN IH show ?thesis
        by (auto simp: bind_eq_Some_conv Let_def case_prod_beta split: if_splits
                 intro: run_variable_get[OF refl refl] run_variable_set[OF refl refl])
    next
      case fn_string
      with run PARSE_FN show ?thesis by (auto intro: expr_run.intros)
    next
      case fn_number
      with run PARSE_FN show ?thesis by (auto intro: expr_run.intros)
    next
      case fn_and
      with run PARSE_FN IH show ?thesis
        by (auto simp: bind_eq_Some_conv Let_def case_prod_beta intro: run_and[OF refl])
    next
      case fn_or
      with run PARSE_FN IH show ?thesis
        by (auto simp: bind_eq_Some_conv Let_def case_prod_beta intro: run_or[OF refl refl])
    next
      case fn_literal
      with run PARSE_FN show ?thesis by (auto intro: expr_run.intros)
    qed
  next
    case (ARGUMENTS k)
    show ?thesis
    proof (cases "expr n EXPRESSION st")
      case None
      with run ARGUMENTS show ?thesis by simp
    next
      case (Some st1)
      define m where "m = match COMMA (check_argument_count k st1)"
      from run ARGUMENTS Some
      have b: "(if fst m then expr n (ARGUMENTS (Suc k mod 256)) (snd m)
                else Some (finish_call (Suc k mod 256) (snd m))) = Some st'"
        unfolding m_def by (simp add: Let_def case_prod_beta split del: if_split)
      show ?thesis
      proof (cases "fst m")
        case True
        with b have "expr n (ARGUMENTS (Suc k mod 256)) (snd m) = Some st'"
          by (simp only: if_True)
        from run_arguments_more[OF IH[OF Some] m_def True IH[OF this]] ARGUMENTS
        show ?thesis by (simp only:)
      next
        case False
        with b have "st' = finish_call (Suc k mod 256) (snd m)"
          by (simp only: if_False option.inject)
        with run_arguments_last[OF IH[OF Some] m_def False] ARGUMENTS
        show ?thesis by (simp only:)
      qed
    qed
  qed
qed


lemma for_condition_sound:
  "for_condition n st = Some (st', j) \<Longrightarrow> for_condition_run st st' j"
  by (auto simp: for_condition_def Let_def case_prod_beta bind_eq_Some_conv split: if_splits
           dest!: expr_sound intro: run_no_condition run_condition[OF _ _ refl])

lemma for_increment_sound:
  "for_increment n st = Some st' \<Longrightarrow> for_increment_run st st'"
  by (auto simp: for_increment_def Let_def case_prod_beta bind_eq_Some_conv split: if_splits
           dest!: expr_sound intro: run_no_increment run_increment[OF _ refl _ refl refl])

lemma stmt_sound: "stmt n c st = Some st' \<Longrightarrow> stmt_run c st st'"
proof (induction n arbitrary: c st st')
  case 0
  then show ?case by simp
next
  case (Suc n)
  note IH = Suc.IH
  note run = Suc.prems
  show ?case
  proof (cases c)
    case DECLARATION
    with run show ?thesis
      by (auto split: if_splits dest!: IH intro: stmt_run.intros)
  next
    case STATEMENT
    with run show ?thesis
      by (auto simp: bind_eq_Some_conv check_def split: if_splits dest!: IH
               intro: stmt_run.intros[unfolded check_def])
  next
    case BLOCK
    with run show ?thesis
      by (auto simp: bind_eq_Some_conv split: if_splits dest!: IH intro: stmt_run.intros)
  next
    case (FUNCTION ty)
    with run show ?thesis
      by (auto simp: bind_eq_Some_conv Let_def case_prod_beta split: if_splits dest!: IH
               intro!: run_function[OF refl _ _ refl refl])
  next
    case PARAMETERS
    with run show ?thesis
      by (auto simp: Let_def case_prod_beta split: if_splits dest!: IH intro: stmt_run.intros)
  next
    case FUNC_DECLARATION
    with run show ?thesis
      by (auto simp: bind_eq_Some_conv Let_def case_prod_beta dest!: IH
               intro: run_func_declaration[OF refl])
  next
    case VAR_DECLARATION
    with run show ?thesis
      by (auto simp: bind_eq_Some_conv Let_def case_prod_beta split: if_splits
               dest!: expr_sound intro!: run_var_declaration[OF refl refl])
  next
    case EXPRESSION_STATEMENT
    with run show ?thesis
      by (auto simp: bind_eq_Some_conv dest!: expr_sound intro: stmt_run.intros)
  next
    case FOR_STATEMENT
    with run show ?thesis
      by (auto simp: bind_eq_Some_conv Let_def case_prod_beta split: if_splits
               dest!: IH for_condition_sound for_increment_sound
               intro!: run_for_statement[OF refl])
  next
    case IF_STATEMENT
    define tj where "tj st2 = emit_jump OP_JUMP_IF_FALSE
            (consume RIGHT_PAREN ''Expect ')' after condition.'' st2)" for st2
    define m where "m st2 st6 = match ELSE (emit_byte (Op OP_POP)
            (patch_jump (snd (tj st2)) (fst (emit_jump OP_JUMP st6))))" for st2 st6
    from run IF_STATEMENT obtain st2 st6 st11 where
      a: "expr n EXPRESSION (consume LEFT_PAREN ''Expect '(' after 'if'.'' st) = Some st2" and
      b: "stmt n STATEMENT (emit_byte (Op OP_POP) (fst (tj st2))) = Some st6" and
      c: "(if fst (m st2 st6) then stmt n STATEMENT (snd (m st2 st6)) else Some (snd (m st2 st6))) = Some st11" and
      d: "st' = patch_jump (snd (emit_jump OP_JUMP st6)) st11"
      unfolding tj_def m_def
      by (auto simp: bind_eq_Some_conv Let_def case_prod_beta split del: if_split)
    have disj: "(fst (m st2 st6) \<and> stmt_run STATEMENT (snd (m st2 st6)) st11) \<or>
          (\<not> fst (m st2 st6) \<and> st11 = snd (m st2 st6))"
    proof (cases "fst (m st2 st6)")
      case True
      with c have "stmt n STATEMENT (snd (m st2 st6)) = Some st11" by (simp only: if_True)
      with True IH show ?thesis by blast
    next
      case False
      with c have "st11 = snd (m st2 st6)" by (simp only: if_False option.inject)
      with False show ?thesis by blast
    qed
    have "stmt_run IF_STATEMENT st (patch_jump (snd (emit_jump OP_JUMP st6)) st11)"
      apply (rule run_if_statement)
           apply (rule expr_sound[OF a])
          apply (rule refl)
         apply (rule IH[OF b[unfolded tj_def]])
        apply (rule refl)
       apply (rule refl)
      apply (rule disj[unfolded m_def tj_def])
      done
    with d IF_STATEMENT show ?thesis by (simp only:)
  next
    case INFO_STATEMENT
    with run show ?thesis
      by (auto simp: bind_eq_Some_conv dest!: expr_sound intro: stmt_run.intros)
  next
    case RETURN_STATEMENT
    define st1 where "st1 = (if ftype (compiler st) = TYPE_SCRIPT
            then error ''Can't return from top-level code!'' st else st)"
    show ?thesis
    proof (cases "fst (match SEMICOLON st1)")
      case True
      with run RETURN_STATEMENT have "st' = emit_return (snd (match SEMICOLON st1))"
        unfolding st1_def by (simp add: Let_def case_prod_beta split del: if_split)
      with run_return_nil[OF st1_def True] RETURN_STATEMENT show ?thesis by (simp only:)
    next
      case False
      with run RETURN_STATEMENT obtain st3 where
        e: "expr n EXPRESSION (snd (match SEMICOLON st1)) = Some st3" and
        f: "st' = emit_byte (Op OP_RETURN)
                    (consume SEMICOLON ''Expected ';' after the return value'' st3)"
        unfolding st1_def
        by (auto simp: Let_def case_prod_beta bind_eq_Some_conv split del: if_split)
      from run_return_value[OF st1_def False expr_sound[OF e]] f RETURN_STATEMENT
      show ?thesis by (simp only:)
    qed
  next
    case WHILE_STATEMENT
    with run show ?thesis
      by (auto simp: bind_eq_Some_conv Let_def case_prod_beta
               dest!: IH expr_sound intro: run_while_statement[OF _ refl])
  next
    case DECLARATIONS
    with run show ?thesis
      by (auto simp: bind_eq_Some_conv Let_def case_prod_beta split: if_splits
               dest!: IH intro: stmt_run.intros)
  qed
qed

section \<open>Predicates that every call preserves\<close>


lemma pres_advance: "expr_pred P \<Longrightarrow> P st \<Longrightarrow> P (advance st)"
  by (simp add: expr_pred_def)

lemma pres_error: "expr_pred P \<Longrightarrow> P st \<Longrightarrow> P (error msg st)"
  by (simp add: expr_pred_def)

lemma pres_func: "expr_pred P \<Longrightarrow> P st \<Longrightarrow> P (st\<lparr>compiler := (compiler st)\<lparr>func := f\<rparr>\<rparr>)"
  by (simp add: expr_pred_def)

lemma pres_emit_byte: "expr_pred P \<Longrightarrow> P st \<Longrightarrow> P (emit_byte b st)"
  unfolding emit_byte_def by (rule pres_func)

lemma pres_emit_bytes: "expr_pred P \<Longrightarrow> P st \<Longrightarrow> P (emit_bytes a b st)"
  by (simp add: emit_bytes_def pres_emit_byte)

lemma pres_consume: "expr_pred P \<Longrightarrow> P st \<Longrightarrow> P (consume k msg st)"
  by (simp add: consume_def error_at_current_def pres_advance pres_error)

lemma pres_match: "expr_pred P \<Longrightarrow> P st \<Longrightarrow> P (snd (match k st))"
  by (simp add: match_def pres_advance)

lemma pres_emit_loop: "expr_pred P \<Longrightarrow> P st \<Longrightarrow> P (emit_loop l st)"
  by (simp add: emit_loop_def Let_def pres_emit_byte pres_error)

lemma pres_emit_jump: "expr_pred P \<Longrightarrow> P st \<Longrightarrow> P (fst (emit_jump i st))"
  by (simp add: emit_jump_def Let_def pres_emit_byte)

lemma pres_make_constant: "expr_pred P \<Longrightarrow> P st \<Longrightarrow> P (fst (make_constant v st))"
  by (simp add: make_constant_def Let_def pres_func pres_error case_prod_beta)

lemma pres_emit_return: "expr_pred P \<Longrightarrow> P st \<Longrightarrow> P (emit_return st)"
  by (simp add: emit_return_def pres_emit_byte)

lemma pres_emit_constant: "expr_pred P \<Longrightarrow> P st \<Longrightarrow> P (emit_constant v st)"
  by (simp add: emit_constant_def pres_emit_bytes pres_make_constant case_prod_beta)

lemma pres_set_code: "expr_pred P \<Longrightarrow> P st \<Longrightarrow> P (set_code i b st)"
  by (simp add: set_code_def pres_func)

lemma pres_patch_jump: "expr_pred P \<Longrightarrow> P st \<Longrightarrow> P (patch_jump off st)"
  by (simp add: patch_jump_def Let_def pres_set_code pres_error)

lemma pres_identifier_constant: "expr_pred P \<Longrightarrow> P st \<Longrightarrow> P (fst (identifier_constant nm st))"
  by (simp add: identifier_constant_def pres_make_constant)

lemma pres_resolve_local_loop:
  "expr_pred P \<Longrightarrow> P st \<Longrightarrow> P (snd (resolve_local_loop ls nm i st))"
  by (induction i arbitrary: st) (simp_all add: Let_def pres_error)

lemma pres_resolve_local: "expr_pred P \<Longrightarrow> P st \<Longrightarrow> P (snd (resolve_local c nm st))"
  by (simp add: resolve_local_def pres_resolve_local_loop)

lemma pres_literal: "expr_pred P \<Longrightarrow> P st \<Longrightarrow> P (literal st)"
  by (simp add: literal_def pres_emit_byte split: TokenKind.splits)

lemma pres_number: "expr_pred P \<Longrightarrow> P st \<Longrightarrow> P (number st)"
  by (simp add: number_def pres_emit_constant)

lemma pres_string_lit: "expr_pred P \<Longrightarrow> P st \<Longrightarrow> P (string_lit st)"
  by (simp add: string_lit_def pres_emit_constant)

lemma pres_binary_op: "expr_pred P \<Longrightarrow> P st \<Longrightarrow> P (binary_op k st)"
  by (simp add: binary_op_def pres_emit_byte pres_emit_bytes split: TokenKind.splits)

lemma pres_unary_op: "expr_pred P \<Longrightarrow> P st \<Longrightarrow> P (unary_op k st)"
  by (simp add: unary_op_def pres_emit_byte split: TokenKind.splits)

lemma pres_variable_access: "expr_pred P \<Longrightarrow> P st \<Longrightarrow> P (fst (variable_access nm st))"
  by (simp add: variable_access_def Let_def case_prod_beta pres_resolve_local pres_identifier_constant)

lemma pres_finish_call: "expr_pred P \<Longrightarrow> P st \<Longrightarrow> P (finish_call k st)"
  by (simp add: finish_call_def pres_emit_bytes pres_consume)

lemmas pres_ops = pres_advance pres_error pres_emit_byte pres_emit_bytes pres_consume pres_match
  pres_emit_loop pres_emit_jump pres_make_constant pres_emit_return pres_emit_constant
  pres_patch_jump pres_identifier_constant pres_resolve_local pres_literal pres_number
  pres_string_lit pres_binary_op pres_unary_op pres_variable_access pres_finish_call


lemma pres_check_assignment_target:
  "expr_pred P \<Longrightarrow> P st \<Longrightarrow> P (check_assignment_target b st)"
  by (simp add: check_assignment_target_def case_prod_beta pres_match pres_error)

lemma pres_check_argument_count:
  "expr_pred P \<Longrightarrow> P st \<Longrightarrow> P (check_argument_count k st)"
  by (simp add: check_argument_count_def pres_error)

lemmas pres_expr_ops = pres_ops pres_check_assignment_target pres_check_argument_count


lemma pres_panic: "expr_pred P \<Longrightarrow> P st \<Longrightarrow> P (st\<lparr>panic_mode := False\<rparr>)"
  by (simp add: expr_pred_def)

lemma pres_discard_loop_locals:
  "expr_pred P \<Longrightarrow> P st \<Longrightarrow> P (discard_loop_locals i st)"
  by (induction i arbitrary: st) (simp_all add: pres_expr_ops)

lemma pres_continue_statement: "expr_pred P \<Longrightarrow> P st \<Longrightarrow> P (continue_statement st)"
  by (simp add: continue_statement_def Let_def pres_discard_loop_locals pres_expr_ops)

lemma pres_break_statement: "expr_pred P \<Longrightarrow> P st \<Longrightarrow> P (break_statement st)"
  by (simp add: break_statement_def Let_def pres_discard_loop_locals pres_expr_ops)

lemma pres_using_statement: "expr_pred P \<Longrightarrow> P st \<Longrightarrow> P (using_statement st)"
  by (simp add: using_statement_def Let_def pres_expr_ops)

lemma pres_synchronize_loop: "expr_pred P \<Longrightarrow> P st \<Longrightarrow> P (synchronize_loop st)"
proof (induction st rule: synchronize_loop.induct)
  case (1 st)
  show ?case
  proof (cases "kind (current st) \<noteq> EOF_TOKEN \<and> kind (previous st) \<noteq> SEMICOLON \<and>
                kind (current st) \<notin> set return_context")
    case True
    then have "synchronize_loop st = synchronize_loop (advance st)"
      by (subst synchronize_loop.simps) simp
    with "1.IH" True "1.prems" show ?thesis by (simp add: pres_expr_ops)
  next
    case False
    then have "synchronize_loop st = st"
      by (subst synchronize_loop.simps) auto
    with "1.prems" show ?thesis by simp
  qed
qed

lemma pres_synchronize: "expr_pred P \<Longrightarrow> P st \<Longrightarrow> P (synchronize st)"
  by (simp add: synchronize_def pres_synchronize_loop pres_panic)

lemma pres_incr_arity: "expr_pred P \<Longrightarrow> P st \<Longrightarrow> P (incr_arity st)"
  by (simp add: incr_arity_def pres_func)

lemmas pres_stmt_ops = pres_panic pres_discard_loop_locals pres_continue_statement
  pres_break_statement pres_using_statement pres_synchronize pres_incr_arity

lemma expr_run_preserves:
  assumes P: "expr_pred P"
  shows "expr_run c st st' \<Longrightarrow> P st \<Longrightarrow> P st'"
proof (induction rule: expr_run.induct)
qed (blast intro: pres_expr_ops[OF P])+

lemma for_condition_run_preserves:
  assumes P: "expr_pred P"
  shows "for_condition_run st st' j \<Longrightarrow> P st \<Longrightarrow> P st'"
proof (induction rule: for_condition_run.induct)
qed (blast intro: pres_expr_ops[OF P] expr_run_preserves[OF P])+

lemma parser_pred_expr_pred: "parser_pred P \<Longrightarrow> expr_pred P"
  by (simp add: parser_pred_def expr_pred_def)

lemma pp_compiler: "parser_pred P \<Longrightarrow> P st \<Longrightarrow> P (st\<lparr>compiler := c\<rparr>)"
  by (simp add: parser_pred_def)

lemma pp_enclosing: "parser_pred P \<Longrightarrow> P st \<Longrightarrow> P (st\<lparr>enclosing := e\<rparr>)"
  by (simp add: parser_pred_def)

lemma pp_loop_start: "parser_pred P \<Longrightarrow> P st \<Longrightarrow> P (st\<lparr>inner_most_loop_start := x\<rparr>)"
  by (simp add: parser_pred_def)

lemma pp_loop_scope:
  "parser_pred P \<Longrightarrow> P st \<Longrightarrow> P (st\<lparr>inner_most_loop_scope_depth := x\<rparr>)"
  by (simp add: parser_pred_def)

lemmas pp_expr_ops = pres_expr_ops[OF parser_pred_expr_pred]
  pres_stmt_ops[OF parser_pred_expr_pred]

lemma for_increment_run_preserves:
  assumes P: "parser_pred P"
  shows "for_increment_run st st' \<Longrightarrow> P st \<Longrightarrow> P st'"
proof (induction rule: for_increment_run.induct)
  case (run_no_increment st)
  then show ?case by (simp add: pp_expr_ops[OF P])
next
  case (run_increment st bj s2 s4 s6)
  have "P (fst bj)" using run_increment by (simp add: pp_expr_ops[OF P])
  then have "P s2" using run_increment expr_run_preserves[OF parser_pred_expr_pred[OF P]] by blast
  then have "P s4" using run_increment by (simp add: pp_expr_ops[OF P])
  then have "P s6" using run_increment by (simp add: pp_expr_ops[OF P] pp_loop_start[OF P])
  then show ?case by (simp add: pp_expr_ops[OF P])
qed

lemma pp_init_compiler: "parser_pred P \<Longrightarrow> P st \<Longrightarrow> P (init_compiler ty st)"
  by (simp add: init_compiler_def Let_def pp_compiler pp_enclosing)

lemma pp_end_compiler: "parser_pred P \<Longrightarrow> P st \<Longrightarrow> P (fst (end_compiler st))"
  by (simp add: end_compiler_def Let_def pp_compiler pp_enclosing pp_expr_ops split: list.splits)

lemma pp_begin_scope: "parser_pred P \<Longrightarrow> P st \<Longrightarrow> P (begin_scope st)"
  by (simp add: begin_scope_def pp_compiler)

lemma pp_drop_local: "parser_pred P \<Longrightarrow> P st \<Longrightarrow> P (drop_local st)"
  by (simp add: drop_local_def pp_compiler)

lemma pp_end_scope_loop: "parser_pred P \<Longrightarrow> P st \<Longrightarrow> P (end_scope_loop st)"
proof (induction st rule: end_scope_loop.induct)
  case (1 st)
  show ?case
  proof (cases "local_count st > 0 \<and> depth (last (locals (compiler st))) > scope_depth (compiler st)")
    case True
    have "end_scope_loop st = end_scope_loop (drop_local (emit_byte (Op OP_POP) st))"
      by (subst end_scope_loop.simps) (simp only: True if_True simp_thms)
    with "1.IH"[OF True "1.prems"(1)] "1.prems" show ?thesis
      by (simp add: pp_drop_local pp_expr_ops)
  next
    case False
    have "end_scope_loop st = st"
      by (subst end_scope_loop.simps) (simp only: False if_False simp_thms)
    with "1.prems" show ?thesis by simp
  qed
qed

lemma pp_end_scope: "parser_pred P \<Longrightarrow> P st \<Longrightarrow> P (end_scope st)"
  by (simp add: end_scope_def pp_end_scope_loop pp_compiler)

lemma pp_add_local: "parser_pred P \<Longrightarrow> P st \<Longrightarrow> P (add_local nm st)"
  by (simp add: add_local_def pp_compiler pp_expr_ops)

lemma pp_declare_variable_loop:
  "parser_pred P \<Longrightarrow> P st \<Longrightarrow> P (declare_variable_loop ls nm i st)"
  by (induction i arbitrary: st) (simp_all add: Let_def pp_expr_ops)

lemma pp_declare_variable: "parser_pred P \<Longrightarrow> P st \<Longrightarrow> P (declare_variable st)"
  by (simp add: declare_variable_def Let_def pp_declare_variable_loop pp_add_local)

lemma pp_parser_variable: "parser_pred P \<Longrightarrow> P st \<Longrightarrow> P (fst (parser_variable msg st))"
  by (simp add: parser_variable_def Let_def pp_declare_variable pp_expr_ops)

lemma pp_mark_initialized: "parser_pred P \<Longrightarrow> P st \<Longrightarrow> P (mark_initialized st)"
  by (simp add: mark_initialized_def Let_def pp_compiler)

lemma pp_define_variable: "parser_pred P \<Longrightarrow> P st \<Longrightarrow> P (define_variable g st)"
  by (simp add: define_variable_def pp_mark_initialized pp_expr_ops)

lemma pp_parameter: "parser_pred P \<Longrightarrow> P st \<Longrightarrow> P (parameter st)"
  by (simp add: parameter_def Let_def case_prod_beta error_at_current_def
                pp_expr_ops pp_parser_variable pp_define_variable pp_expr_ops)

lemma pp_for_end: "parser_pred P \<Longrightarrow> P st \<Longrightarrow> P (for_end a b j st)"
  by (simp add: for_end_def Let_def pp_end_scope pp_loop_start pp_loop_scope pp_expr_ops)

lemmas pp_ops = pp_expr_ops pp_compiler pp_enclosing pp_loop_start pp_loop_scope
  pp_init_compiler pp_end_compiler pp_begin_scope pp_end_scope pp_add_local
  pp_declare_variable pp_parser_variable pp_mark_initialized pp_define_variable
  pp_parameter pp_for_end


lemma stmt_run_preserves:
  assumes P: "parser_pred P"
  shows "stmt_run c st st' \<Longrightarrow> P st \<Longrightarrow> P st'"
proof (induction rule: stmt_run.induct)
  case (run_function st2 type st st3 st6 ec mc)
  note ops = pp_ops[OF P]
  have "P st2" using run_function by (simp add: ops)
  with run_function have "P st3" by blast
  with run_function have "P st6" by (simp add: ops)
  with run_function show ?case by (simp add: ops)
next
  case (run_var_declaration pv st m st3)
  note ops = pp_ops[OF P]
  note E = expr_run_preserves[OF parser_pred_expr_pred[OF P]]
  have "P (snd m)" using run_var_declaration by (simp add: ops)
  with run_var_declaration have "P st3" by (auto simp: ops dest: E)
  then show ?case by (simp add: ops)
next
  case (run_for_statement st1 st st2 st4 exit_jump st5 st6)
  note ops = pp_ops[OF P]
  have "P st1" using run_for_statement by (simp add: ops)
  with run_for_statement have "P st2" by (auto simp: ops)
  then have "P (st2\<lparr>inner_most_loop_start := count st2,
             inner_most_loop_scope_depth := scope_depth (compiler st2)\<rparr>)"
    by (simp add: ops)
  with run_for_statement for_condition_run_preserves[OF parser_pred_expr_pred[OF P]]
  have "P st4" by blast
  with run_for_statement for_increment_run_preserves[OF P] have "P st5" by blast
  with run_for_statement have "P st6" by blast
  then show ?case by (simp add: ops)
next
  case (run_if_statement st st2 tj st6 ej m st11)
  note ops = pp_ops[OF P]
  note E = expr_run_preserves[OF parser_pred_expr_pred[OF P]]
  have "P st2" using run_if_statement E by (blast intro: ops)
  with run_if_statement have "P st6" by (simp add: ops)
  with run_if_statement have "P (snd m)" by (simp add: ops)
  with run_if_statement have "P st11" by auto
  then show ?case by (simp add: ops)
next
  case (run_while_statement st st2 xj st6)
  note ops = pp_ops[OF P]
  note E = expr_run_preserves[OF parser_pred_expr_pred[OF P]]
  have "P st2" using run_while_statement E by (blast intro: ops)
  with run_while_statement have "P st6" by (simp add: ops)
  then show ?case by (simp add: ops)
next
  case (run_return_value st1 st st3)
  note ops = pp_ops[OF P]
  note E = expr_run_preserves[OF parser_pred_expr_pred[OF P]]
  have "P (snd (match SEMICOLON st1))" using run_return_value by (simp add: ops)
  with run_return_value E have "P st3" by blast
  then show ?case by (simp add: ops)
next
  case (run_expression_statement st st1)
  with expr_run_preserves[OF parser_pred_expr_pred[OF P]] have "P st1" by blast
  then show ?case by (simp add: pp_ops[OF P])
next
  case (run_info_statement st st1)
  with expr_run_preserves[OF parser_pred_expr_pred[OF P]] have "P st1" by blast
  then show ?case by (simp add: pp_ops[OF P])
qed (auto simp: pp_ops[OF P])

section \<open>The operations on chunks, scopes and locals\<close>


lemma chunk_code_emit_byte [simp]: "chunk_code (emit_byte b st) = chunk_code st @ [b]"
  by (simp add: chunk_code_def emit_byte_def write_chunk_def)

lemma count_chunk_code: "count st = int (length (chunk_code st))"
  by (simp add: count_def chunk_code_def)

lemma chunk_code_error [simp]: "chunk_code (error msg st) = chunk_code st"
  by (simp add: chunk_code_def error_def)

lemma chunk_code_advance [simp]: "chunk_code (advance st) = chunk_code st"
  by (simp add: chunk_code_def advance_def split: list.splits)

lemma chunk_code_consume [simp]: "chunk_code (consume k msg st) = chunk_code st"
  by (simp add: consume_def error_at_current_def)

lemma emit_jump_code:
  "emit_jump i st = (st1, off) \<Longrightarrow>
     off = count st + 1 \<and> chunk_code st1 = chunk_code st @ [Op i, Raw 255, Raw 255]"
  by (auto simp: emit_jump_def Let_def count_chunk_code)

lemma chunk_code_set_code:
  "chunk_code (set_code i b st) =
     (if 0 \<le> i \<and> i < count st then (chunk_code st)[nat i := b] else chunk_code st)"
  by (simp add: set_code_def chunk_code_def Let_def)

lemma count_set_code [simp]: "count (set_code i b st) = count st"
  by (simp add: set_code_def count_def Let_def)

lemma count_error [simp]: "count (error msg st) = count st"
  by (simp add: count_def error_def)

lemma errors_set_code [simp]: "errors (set_code i b st) = errors st"
  by (simp add: set_code_def)

lemma had_error_set_code [simp]: "had_error (set_code i b st) = had_error st"
  by (simp add: set_code_def)

lemma panic_mode_set_code [simp]: "panic_mode (set_code i b st) = panic_mode st"
  by (simp add: set_code_def)

lemma patch_jump_code:
  assumes "0 \<le> off" "off + 2 \<le> count st"
  shows "chunk_code (patch_jump off st) =
           (chunk_code st)[nat off := hi_byte (count st - off - 2),
                           nat (off + 1) := lo_byte (count st - off - 2)]"
  using assms by (simp add: patch_jump_def Let_def chunk_code_set_code)

lemma read_short_update:
  assumes "0 \<le> off" "off + 2 \<le> int (length bs)"
  shows "read_short (bs[nat off := Raw h, nat (off + 1) := Raw l]) off = int h * 256 + int l"
proof -
  have "nat off < length bs" "nat (off + 1) < length bs" "nat off \<noteq> nat (off + 1)"
    using assms by auto
  then show ?thesis by (simp add: read_short_def)
qed

lemma read_short_patched:
  assumes "0 \<le> off" "off + 2 \<le> int (length bs)" "0 \<le> j" "j \<le> 65535"
  shows "read_short (bs[nat off := hi_byte j, nat (off + 1) := lo_byte j]) off = j"
proof -
  have h: "j div 256 mod 256 = j div 256" using assms by auto
  have "0 \<le> j div 256" "0 \<le> j mod 256" using assms by auto
  then have "int (nat (j div 256 mod 256)) * 256 + int (nat (j mod 256)) = j"
    unfolding h by simp
  then show ?thesis
    unfolding hi_byte_def lo_byte_def read_short_update[OF assms(1,2)] .
qed

lemma patch_jump_ok:
  assumes "0 \<le> off" "off + 2 \<le> count st" "count st - off - 2 \<le> UINT16_MAX"
  shows "read_short (chunk_code (patch_jump off st)) off = count st - (off + 2)"
    and "errors (patch_jump off st) = errors st"
    and "had_error (patch_jump off st) = had_error st"
    and "length (chunk_code (patch_jump off st)) = length (chunk_code st)"
proof -
  show "read_short (chunk_code (patch_jump off st)) off = count st - (off + 2)"
    using assms read_short_patched[of off "chunk_code st" "count st - off - 2"]
    by (simp add: patch_jump_code count_chunk_code UINT16_MAX_def algebra_simps)
  show "errors (patch_jump off st) = errors st" "had_error (patch_jump off st) = had_error st"
    using assms by (simp_all add: patch_jump_def Let_def)
  show "length (chunk_code (patch_jump off st)) = length (chunk_code st)"
    using assms by (simp add: patch_jump_code)
qed

lemma read_short_truncated:
  assumes "0 \<le> off" "off + 2 \<le> int (length bs)"
  shows "read_short (bs[nat off := hi_byte j, nat (off + 1) := lo_byte j]) off = j mod 65536"
proof -
  have "j mod (256 * 256) = 256 * (j div 256 mod 256) + j mod 256"
    by (rule zmod_zmult2_eq) simp
  then have "int (nat (j div 256 mod 256)) * 256 + int (nat (j mod 256)) = j mod 65536"
    by simp
  then show ?thesis
    unfolding hi_byte_def lo_byte_def read_short_update[OF assms(1,2)] .
qed

lemma patch_jump_operand:
  assumes "0 \<le> off" "off + 2 \<le> count st"
  shows "read_short (chunk_code (patch_jump off st)) off = (count st - off - 2) mod 65536"
  using assms read_short_truncated[of off "chunk_code st" "count st - off - 2"]
  by (simp add: patch_jump_code count_chunk_code)

lemma patch_jump_too_far:
  assumes "count st - off - 2 > UINT16_MAX"
  shows "\<not> panic_mode st \<Longrightarrow>
           errors (patch_jump off st) = errors st @ [''Too much code to jump over.'']"
    and "(panic_mode st \<longrightarrow> had_error st) \<Longrightarrow> had_error (patch_jump off st)"
  using assms by (auto simp: patch_jump_def Let_def error_def)


subsection \<open>end_scope\<close>


lemma end_scope_loop_spec:
  "chunk_code (end_scope_loop st) =
     chunk_code st @ replicate (scope_exit_count (scope_depth (compiler st)) (locals (compiler st))) (Op OP_POP) \<and>
   locals (compiler (end_scope_loop st)) =
     take (length (locals (compiler st)) - scope_exit_count (scope_depth (compiler st)) (locals (compiler st)))
       (locals (compiler st)) \<and>
   scope_depth (compiler (end_scope_loop st)) = scope_depth (compiler st) \<and>
   errors (end_scope_loop st) = errors st \<and> had_error (end_scope_loop st) = had_error st"
proof (induction st rule: end_scope_loop.induct)
  case (1 st)
  let ?ls = "locals (compiler st)"
  let ?d = "scope_depth (compiler st)"
  show ?case
  proof (cases "local_count st > 0 \<and> depth (last ?ls) > ?d")
    case False
    then have "scope_exit_count ?d ?ls = 0"
      by (cases ?ls rule: rev_cases) (auto simp: scope_exit_count_def local_count_def)
    moreover have "end_scope_loop st = st"
      by (subst end_scope_loop.simps) (simp only: False if_False simp_thms)
    ultimately show ?thesis by simp
  next
    case True
    then obtain xs x where ls: "?ls = xs @ [x]" and dx: "depth x > ?d"
      by (cases ?ls rule: rev_cases) (auto simp: local_count_def)
    let ?st' = "drop_local (emit_byte (Op OP_POP) st)"
    have st': "locals (compiler ?st') = xs" "scope_depth (compiler ?st') = ?d"
      "chunk_code ?st' = chunk_code st @ [Op OP_POP]" "errors ?st' = errors st"
      "had_error ?st' = had_error st"
      using ls by (simp_all add: drop_local_def emit_byte_def chunk_code_def write_chunk_def)
    have k: "scope_exit_count ?d ?ls = Suc (scope_exit_count ?d xs)"
      using ls dx by (simp add: scope_exit_count_def)
    have le: "scope_exit_count ?d xs \<le> length xs"
      unfolding scope_exit_count_def using length_takeWhile_le[of _ "rev xs"] by simp
    have unf: "end_scope_loop st = end_scope_loop ?st'"
      by (subst end_scope_loop.simps) (simp only: True if_True simp_thms)
    from "1.IH"[OF True] st' k le ls show ?thesis
      unfolding unf by (simp add: replicate_app_Cons_same)
  qed
qed

lemma end_scope_spec:
  "chunk_code (end_scope st) =
     chunk_code st @ replicate (scope_exit_count (scope_depth (compiler st) - 1) (locals (compiler st))) (Op OP_POP) \<and>
   locals (compiler (end_scope st)) =
     take (length (locals (compiler st)) - scope_exit_count (scope_depth (compiler st) - 1) (locals (compiler st)))
       (locals (compiler st)) \<and>
   scope_depth (compiler (end_scope st)) = scope_depth (compiler st) - 1 \<and>
   errors (end_scope st) = errors st \<and> had_error (end_scope st) = had_error st"
  unfolding end_scope_def
  using end_scope_loop_spec[of "st\<lparr>compiler := (compiler st)\<lparr>scope_depth := scope_depth (compiler st) - 1\<rparr>\<rparr>"]
  by (simp add: chunk_code_def)

lemma takeWhile_rev_sorted_filter:
  "sorted (map f xs) \<Longrightarrow> takeWhile (\<lambda>x. f x > (d::int)) (rev xs) = rev (filter (\<lambda>x. f x > d) xs)"
proof (induction xs rule: rev_induct)
  case Nil
  then show ?case by simp
next
  case (snoc x xs)
  then have s: "sorted (map f xs)" and le: "\<forall>y \<in> set xs. f y \<le> f x"
    by (auto simp: sorted_append)
  show ?case
  proof (cases "f x > d")
    case True
    with snoc.IH[OF s] show ?thesis by simp
  next
    case False
    with le have "\<forall>y \<in> set xs. \<not> f y > d" by force
    then have "filter (\<lambda>x. f x > d) xs = []" by (simp add: filter_empty_conv)
    with False show ?thesis by simp
  qed
qed

lemma scope_exit_count_sorted:
  "sorted (map depth ls) \<Longrightarrow> scope_exit_count d ls = length (filter (\<lambda>l. depth l > d) ls)"
  by (simp add: scope_exit_count_def takeWhile_rev_sorted_filter)


subsection \<open>declare_variable\<close>

lemma error_error [simp]: "error m2 (error m1 st) = error m1 st"
  by (simp add: error_def)

lemma compiler_error [simp]: "compiler (error msg st) = compiler st"
  by (simp add: error_def)

lemma identifiers_equal_iff: "identifiers_equal a b \<longleftrightarrow> lexeme a = lexeme b"
  unfolding identifiers_equal_def by (cases "lexeme a = lexeme b") simp_all

lemma declare_variable_loop_spec:
  "i \<le> length ls \<Longrightarrow>
   declare_variable_loop ls nm i st =
     (if redeclared nm (scope_depth (compiler st)) (take i ls)
      then error ''Already a variable with this name in this scope.'' st else st)"
proof (induction i arbitrary: st)
  case 0
  then show ?case by (simp add: redeclared_def same_scope_locals_def)
next
  case (Suc i)
  then have i: "i < length ls" "i \<le> length ls" by auto
  have tk: "rev (take (Suc i) ls) = ls ! i # rev (take i ls)"
    using i by (simp add: take_Suc_conv_app_nth)
  let ?d = "scope_depth (compiler st)"
  let ?e = "error ''Already a variable with this name in this scope.'' st"
  show ?case
  proof (cases "depth (ls ! i) \<noteq> -1 \<and> depth (ls ! i) < ?d")
    case True
    then have "\<not> redeclared nm ?d (take (Suc i) ls)"
      unfolding redeclared_def same_scope_locals_def tk by simp
    with True show ?thesis by simp
  next
    case False
    then have r: "redeclared nm ?d (take (Suc i) ls) \<longleftrightarrow>
                  lexeme (name (ls ! i)) = lexeme nm \<or> redeclared nm ?d (take i ls)"
      unfolding redeclared_def same_scope_locals_def tk by auto
    have step: "declare_variable_loop ls nm (Suc i) st =
                  declare_variable_loop ls nm i
                    (if identifiers_equal nm (name (ls ! i)) then ?e else st)"
      by (simp only: declare_variable_loop.simps Let_def False if_False)
    show ?thesis
    proof (cases "lexeme (name (ls ! i)) = lexeme nm")
      case True
      then have eq: "identifiers_equal nm (name (ls ! i))" by (simp add: identifiers_equal_iff)
      have "declare_variable_loop ls nm (Suc i) st = declare_variable_loop ls nm i ?e"
        unfolding step using eq by simp
      also have "\<dots> = ?e"
        unfolding Suc.IH[OF i(2)] by simp
      finally show ?thesis using r True by simp
    next
      case ne: False
      then have eq: "\<not> identifiers_equal nm (name (ls ! i))"
        by (auto simp: identifiers_equal_iff)
      have "declare_variable_loop ls nm (Suc i) st = declare_variable_loop ls nm i st"
        unfolding step using eq by simp
      then show ?thesis
        unfolding Suc.IH[OF i(2)] using r ne by simp
    qed
  qed
qed

lemma declare_variable_global: "scope_depth (compiler st) = 0 \<Longrightarrow> declare_variable st = st"
  by (simp add: declare_variable_def)

lemma declare_variable_local:
  assumes "scope_depth (compiler st) \<noteq> 0"
  shows "declare_variable st =
           add_local (previous st)
             (if redeclared (previous st) (scope_depth (compiler st)) (locals (compiler st))
              then error ''Already a variable with this name in this scope.'' st else st)"
  using assms by (simp add: declare_variable_def Let_def declare_variable_loop_spec)

lemma declare_variable_errors:
  assumes "scope_depth (compiler st) \<noteq> 0" "\<not> panic_mode st"
  shows "errors (declare_variable st) =
           errors st @
             (if redeclared (previous st) (scope_depth (compiler st)) (locals (compiler st))
              then [''Already a variable with this name in this scope.'']
              else if local_count st = UINT8_COUNT
              then [''Too many local variables in function.'']
              else [])"
  using assms
  by (simp add: declare_variable_local add_local_def error_def local_count_def)

lemma declare_variable_locals:
  assumes "scope_depth (compiler st) \<noteq> 0"
  shows "locals (compiler (declare_variable st)) =
           (if local_count st = UINT8_COUNT then locals (compiler st)
            else locals (compiler st) @ [\<lparr>name = previous st, depth = -1\<rparr>])"
  using assms
  by (simp add: declare_variable_local add_local_def error_def local_count_def)

lemma same_scope_locals_initialized:
  "\<forall>l \<in> set ls. depth l \<noteq> -1 \<Longrightarrow>
   same_scope_locals d ls = takeWhile (\<lambda>l. \<not> depth l < d) (rev ls)"
  unfolding same_scope_locals_def by (rule takeWhile_cong) auto

subsection \<open>break and continue\<close>


lemma emit_pops_fields:
  "chunk_code ((emit_byte b ^^ k) st) = chunk_code st @ replicate k b \<and>
   errors ((emit_byte b ^^ k) st) = errors st \<and>
   had_error ((emit_byte b ^^ k) st) = had_error st \<and>
   panic_mode ((emit_byte b ^^ k) st) = panic_mode st \<and>
   current ((emit_byte b ^^ k) st) = current st \<and>
   tokens ((emit_byte b ^^ k) st) = tokens st \<and>
   locals (compiler ((emit_byte b ^^ k) st)) = locals (compiler st) \<and>
   inner_most_loop_start ((emit_byte b ^^ k) st) = inner_most_loop_start st \<and>
   inner_most_loop_scope_depth ((emit_byte b ^^ k) st) = inner_most_loop_scope_depth st"
proof (induction k)
  case 0
  then show ?case by simp
next
  case (Suc k)
  then show ?case
    by (simp add: emit_byte_def chunk_code_def write_chunk_def replicate_append_same)
qed

lemma discard_loop_locals_spec:
  "i \<le> length (locals (compiler st)) \<Longrightarrow>
   discard_loop_locals i st =
     (emit_byte (Op OP_POP) ^^
        scope_exit_count (inner_most_loop_scope_depth st) (take i (locals (compiler st)))) st"
proof (induction i arbitrary: st)
  case 0
  then show ?case by (simp add: scope_exit_count_def)
next
  case (Suc i)
  let ?ls = "locals (compiler st)"
  let ?d = "inner_most_loop_scope_depth st"
  let ?e = "emit_byte (Op OP_POP) st"
  from Suc.prems have i: "i < length ?ls" by simp
  have tk: "rev (take (Suc i) ?ls) = ?ls ! i # rev (take i ?ls)"
    using i by (simp add: take_Suc_conv_app_nth)
  have e: "locals (compiler ?e) = ?ls" "inner_most_loop_scope_depth ?e = ?d"
    by (simp_all add: emit_byte_def)
  show ?case
  proof (cases "depth (?ls ! i) > ?d")
    case True
    then have k: "scope_exit_count ?d (take (Suc i) ?ls) = Suc (scope_exit_count ?d (take i ?ls))"
      unfolding scope_exit_count_def tk by simp
    have "discard_loop_locals (Suc i) st = discard_loop_locals i ?e"
      using True by simp
    also have "\<dots> = (emit_byte (Op OP_POP) ^^ scope_exit_count ?d (take i ?ls)) ?e"
      using Suc.IH[of ?e] i e by simp
    finally show ?thesis unfolding k by (simp add: funpow_swap1)
  next
    case False
    then have "scope_exit_count ?d (take (Suc i) ?ls) = 0"
      unfolding scope_exit_count_def tk by simp
    with False show ?thesis by simp
  qed
qed

lemma discard_all_loop_locals:
  "discard_loop_locals (length (locals (compiler st))) st =
     (emit_byte (Op OP_POP) ^^
        scope_exit_count (inner_most_loop_scope_depth st) (locals (compiler st))) st"
  using discard_loop_locals_spec[of "length (locals (compiler st))" st] by simp

lemma emit_loop_fields:
  "chunk_code (emit_loop l st) =
     chunk_code st @ [Op OP_LOOP, hi_byte (count st + 3 - l), lo_byte (count st + 3 - l)] \<and>
   current (emit_loop l st) = current st \<and>
   tokens (emit_loop l st) = tokens st \<and>
   (\<not> panic_mode st \<longrightarrow>
      errors (emit_loop l st) =
        errors st @ (if count st + 3 - l > UINT16_MAX then [''Loop body too large.''] else []))"
  by (simp add: emit_loop_def Let_def count_chunk_code error_def emit_byte_def chunk_code_def
                write_chunk_def algebra_simps)

lemma errors_consume:
  "\<not> panic_mode st \<Longrightarrow>
   errors (consume k msg st) = errors st @ (if kind (current st) = k then [] else [msg])"
  by (simp add: consume_def error_at_current_def error_def advance_def split: list.splits)

lemma continue_statement_outside:
  "inner_most_loop_start st = -1 \<Longrightarrow>
   continue_statement st = error ''Cannot use 'continue' outside of a loop.'' st"
  by (simp add: continue_statement_def)

lemma break_statement_outside:
  "inner_most_loop_start st = -1 \<Longrightarrow>
   break_statement st = error ''Cannot use 'break' outside of a loop.'' st"
  by (simp add: break_statement_def)

lemma continue_statement_code:
  assumes "inner_most_loop_start st \<noteq> -1"
  defines "k \<equiv> scope_exit_count (inner_most_loop_scope_depth st) (locals (compiler st))"
  defines "off \<equiv> count st + int k + 3 - inner_most_loop_start st"
  shows "chunk_code (continue_statement st) =
           chunk_code st @ replicate k (Op OP_POP) @ [Op OP_LOOP, hi_byte off, lo_byte off]"
  using assms emit_pops_fields[of k "Op OP_POP" st]
  by (simp add: continue_statement_def Let_def discard_all_loop_locals emit_loop_fields
                count_chunk_code algebra_simps)

lemma break_statement_code:
  assumes "inner_most_loop_start st \<noteq> -1"
  defines "k \<equiv> scope_exit_count (inner_most_loop_scope_depth st) (locals (compiler st))"
  shows "chunk_code (break_statement st) =
           chunk_code st @ replicate k (Op OP_POP) @ [Op OP_BREAK]"
  using assms emit_pops_fields[of k "Op OP_POP" st]
  by (simp add: break_statement_def Let_def discard_all_loop_locals)

lemma panic_mode_emit_byte [simp]: "panic_mode (emit_byte b st) = panic_mode st"
  by (simp add: emit_byte_def)

lemma errors_emit_byte [simp]: "errors (emit_byte b st) = errors st"
  by (simp add: emit_byte_def)

lemma current_emit_byte [simp]: "current (emit_byte b st) = current st"
  by (simp add: emit_byte_def)

lemma panic_mode_emit_loop:
  "panic_mode (emit_loop l st) = (panic_mode st \<or> count st + 3 - l > UINT16_MAX)"
  by (auto simp: emit_loop_def Let_def error_def count_def emit_byte_def write_chunk_def)

lemma continue_statement_errors:
  assumes "inner_most_loop_start st \<noteq> -1" "\<not> panic_mode st"
  defines "k \<equiv> scope_exit_count (inner_most_loop_scope_depth st) (locals (compiler st))"
  defines "off \<equiv> count st + int k + 3 - inner_most_loop_start st"
  shows "errors (continue_statement st) =
           errors st @
             (if off > UINT16_MAX then [''Loop body too large.'']
              else if kind (current st) = SEMICOLON then []
              else [''Expect ';' after 'continue'.''])"
proof -
  let ?s1 = "(emit_byte (Op OP_POP) ^^ k) st"
  let ?s2 = "emit_loop (inner_most_loop_start st) ?s1"
  have f: "errors ?s1 = errors st" "panic_mode ?s1 = panic_mode st" "current ?s1 = current st"
    "inner_most_loop_start ?s1 = inner_most_loop_start st" "count ?s1 = count st + int k"
    using emit_pops_fields[of k "Op OP_POP" st] by (simp_all add: count_chunk_code)
  have c: "continue_statement st = consume SEMICOLON ''Expect ';' after 'continue'.'' ?s2"
    using assms(1) f(4)
    by (simp add: continue_statement_def Let_def discard_all_loop_locals k_def)
  have e2: "errors ?s2 = errors st @ (if off > UINT16_MAX then [''Loop body too large.''] else [])"
    using assms(2) f emit_loop_fields[of "inner_most_loop_start st" ?s1]
    by (simp add: off_def)
  have p2: "panic_mode ?s2 = (off > UINT16_MAX)"
    using assms(2) f by (simp add: panic_mode_emit_loop off_def)
  have c2: "current ?s2 = current st"
    using f emit_loop_fields[of "inner_most_loop_start st" ?s1] by simp
  show ?thesis
  proof (cases "off > UINT16_MAX")
    case True
    with p2 have "errors (consume SEMICOLON ''Expect ';' after 'continue'.'' ?s2) = errors ?s2"
      by (simp add: consume_def error_at_current_def error_def advance_def split: list.splits)
    with True e2 c show ?thesis by simp
  next
    case False
    with p2 have "\<not> panic_mode ?s2" by simp
    from errors_consume[OF this] False e2 c c2 show ?thesis by simp
  qed
qed

lemma break_statement_errors:
  assumes "inner_most_loop_start st \<noteq> -1" "\<not> panic_mode st"
  shows "errors (break_statement st) =
           errors st @
             (if kind (current st) = SEMICOLON then [] else [''Expect ';' after 'break'.''])"
proof -
  let ?k = "scope_exit_count (inner_most_loop_scope_depth st) (locals (compiler st))"
  let ?s1 = "(emit_byte (Op OP_POP) ^^ ?k) st"
  let ?s2 = "emit_byte (Op OP_BREAK) ?s1"
  have f: "errors ?s2 = errors st" "panic_mode ?s2 = panic_mode st" "current ?s2 = current st"
    using emit_pops_fields[of ?k "Op OP_POP" st] by simp_all
  have c: "break_statement st = consume SEMICOLON ''Expect ';' after 'break'.'' ?s2"
    using assms(1) by (simp add: break_statement_def Let_def discard_all_loop_locals)
  from assms(2) f have "\<not> panic_mode ?s2" by simp
  from errors_consume[OF this] f c show ?thesis by simp
qed

lemma read_short_append_raw:
  "read_short (bs @ [b, Raw h, Raw l]) (int (length bs) + 1) = int h * 256 + int l"
proof -
  have n: "nat (int (length bs) + 1) = Suc (length bs)"
    "nat (int (length bs) + 1 + 1) = Suc (Suc (length bs))"
    by simp_all
  show ?thesis unfolding read_short_def n by (simp add: nth_append)
qed

lemma read_short_append:
  assumes "0 \<le> j" "j \<le> 65535"
  shows "read_short (bs @ [b, hi_byte j, lo_byte j]) (int (length bs) + 1) = j"
proof -
  have h: "j div 256 mod 256 = j div 256" using assms by auto
  have "0 \<le> j div 256" "0 \<le> j mod 256" using assms by auto
  then have "int (nat (j div 256 mod 256)) * 256 + int (nat (j mod 256)) = j"
    unfolding h by simp
  then show ?thesis
    unfolding hi_byte_def lo_byte_def read_short_append_raw .
qed

section \<open>The error state and the loop start\<close>

lemma parser_pred_error_state_ok: "parser_pred error_state_ok"
  by (auto simp: parser_pred_def error_state_ok_def error_def advance_def split: list.splits)

lemma parser_pred_had_error: "parser_pred had_error"
  by (auto simp: parser_pred_def error_def advance_def split: list.splits)

lemma had_error_stmt: "stmt n c st = Some st' \<Longrightarrow> had_error st \<Longrightarrow> had_error st'"
  using stmt_run_preserves[OF parser_pred_had_error] stmt_sound by blast

lemma had_error_expr: "expr n c st = Some st' \<Longrightarrow> had_error st \<Longrightarrow> had_error st'"
  using expr_run_preserves[OF parser_pred_expr_pred[OF parser_pred_had_error]] expr_sound
  by blast

lemma for_increment_start:
  assumes "for_increment n st = Some st'" "\<not> check RIGHT_PAREN st"
  shows "inner_most_loop_start st' = count st + 3"
proof -
  from assms(2) have m: "match RIGHT_PAREN st = (False, st)" by (simp add: match_def)
  from for_increment_sound[OF assms(1)] show ?thesis
  proof (cases rule: for_increment_run.cases)
    case run_no_increment
    with m show ?thesis by simp
  next
    case (run_increment bj s2 s4 s6)
    have "inner_most_loop_start st' = inner_most_loop_start s6"
      unfolding run_increment(1) by (simp add: patch_jump_def Let_def set_code_def error_def)
    also have "\<dots> = count (fst bj)" unfolding run_increment(6) by simp
    also have "\<dots> = count st + 3"
      unfolding run_increment(3) m by (simp add: emit_jump_def Let_def count_chunk_code)
    finally show ?thesis .
  qed
qed

lemma compile_run_error_state:
  assumes "compile_run n source = Some (st, function)"
  shows "error_state_ok st"
proof -
  let ?st3 = "advance ((init_compiler TYPE_SCRIPT (init_tokenizer source))
                         \<lparr>had_error := False, panic_mode := False\<rparr>)"
  from assms obtain st4 where
    r: "stmt n DECLARATIONS ?st3 = Some st4" and e: "end_compiler st4 = (st, function)"
    by (auto simp: compile_run_def Let_def bind_eq_Some_conv)
  have "error_state_ok ((init_compiler TYPE_SCRIPT (init_tokenizer source))
                         \<lparr>had_error := False, panic_mode := False\<rparr>)"
    by (simp add: error_state_ok_def init_compiler_def init_tokenizer_def Let_def)
  then have "error_state_ok ?st3"
    by (rule pp_ops[OF parser_pred_error_state_ok])
  with r stmt_sound stmt_run_preserves[OF parser_pred_error_state_ok]
  have "error_state_ok st4" by blast
  then have "error_state_ok (fst (end_compiler st4))"
    by (rule pp_ops[OF parser_pred_error_state_ok])
  with e show ?thesis by simp
qed


lemma had_error_end_compiler [simp]: "had_error (fst (end_compiler st)) = had_error st"
  by (simp add: end_compiler_def Let_def emit_return_def emit_byte_def split: list.splits)

lemma finish_compile_had_error: "had_error st \<Longrightarrow> finish_compile st = None"
  using had_error_end_compiler[of st]
  by (simp add: finish_compile_def case_prod_beta)

lemma long_chunk_count: "count long_chunk = 65540"
  by (simp add: long_chunk_def count_def)

lemma long_chunk_ok: "error_state_ok long_chunk \<and> \<not> panic_mode long_chunk \<and> errors long_chunk = []"
  by (simp add: long_chunk_def error_state_ok_def fresh_script_def init_compiler_def
                init_tokenizer_def)

lemma nested_locals_fields:
  "map depth (locals (compiler nested_locals)) = [0, 1, 2, 2] \<and>
   map (lexeme \<circ> name) (locals (compiler nested_locals)) = [[], ''a'', ''b'', ''c''] \<and>
   scope_depth (compiler nested_locals) = 2 \<and>
   chunk_code nested_locals = [] \<and> errors nested_locals = [] \<and>
   \<not> panic_mode nested_locals"
  unfolding chunk_code_def by code_simp


section \<open>Every call returns\<close>



lemma remaining_error [simp]: "remaining (error msg st) = remaining st"
  by (simp add: remaining_def error_def)

lemma remaining_update [simp]:
  "remaining (st\<lparr>compiler := c\<rparr>) = remaining st"
  "remaining (st\<lparr>enclosing := e\<rparr>) = remaining st"
  "remaining (st\<lparr>inner_most_loop_start := x\<rparr>) = remaining st"
  "remaining (st\<lparr>inner_most_loop_scope_depth := x\<rparr>) = remaining st"
  "remaining (st\<lparr>panic_mode := b\<rparr>) = remaining st"
  by (simp_all add: remaining_def)










lemma previous_advance [simp]: "previous (advance st) = current st"
  by (simp add: advance_def split: list.splits)












lemma panic_mode_advance [simp]: "panic_mode (advance st) = panic_mode st"
  by (simp add: advance_def split: list.splits)

lemma panic_mode_synchronize_loop: "panic_mode (synchronize_loop st) = panic_mode st"
proof (induction st rule: synchronize_loop.induct)
  case (1 st)
  show ?case
  proof (cases "kind (current st) \<noteq> EOF_TOKEN \<and> kind (previous st) \<noteq> SEMICOLON \<and>
                kind (current st) \<notin> set return_context")
    case True
    have "synchronize_loop st = synchronize_loop (advance st)"
      by (subst synchronize_loop.simps) (use True in simp)
    with "1.IH" True show ?thesis by simp
  next
    case False
    have "synchronize_loop st = st"
      by (subst synchronize_loop.simps) (use False in auto)
    then show ?thesis by simp
  qed
qed

lemma panic_mode_synchronize [simp]: "\<not> panic_mode (synchronize st)"
  by (simp add: synchronize_def panic_mode_synchronize_loop)













section \<open>Scopes, enclosing compilers and function declarations\<close>

























lemma expr_run_locals: "expr_run c st st' \<Longrightarrow> locals (compiler st') = locals (compiler st)"
proof -
  have "expr_pred (\<lambda>s. locals (compiler s) = ls)" for ls
    by (simp add: expr_pred_def error_def advance_def split: list.splits)
  from expr_run_preserves[OF this, of c st st' "locals (compiler st)"]
  show "expr_run c st st' \<Longrightarrow> locals (compiler st') = locals (compiler st)" by simp
qed





lemma pool_emit_byte [simp]: "pool (emit_byte b st) = pool st"
  by (simp add: pool_def emit_byte_def write_chunk_def)

lemma pool_emit_bytes [simp]: "pool (emit_bytes a b st) = pool st"
  by (simp add: emit_bytes_def)

lemma chunk_code_emit_bytes [simp]: "chunk_code (emit_bytes a b st) = chunk_code st @ [a, b]"
  by (simp add: emit_bytes_def)


lemma advance_fields [simp]:
  "compiler (advance st) = compiler st" "enclosing (advance st) = enclosing st"
  by (simp_all add: advance_def split: list.splits)



lemma resolve_last_local:
  "resolve_local (c\<lparr>locals := ls @ [\<lparr>name = nm, depth = d\<rparr>]\<rparr>) nm s = (int (length ls), s)"
  by (simp add: resolve_local_def identifiers_equal_def)




section \<open>Properties\<close>

subsection \<open>Self-referential initializers\<close>

text \<open>
  C1. The claim: at scope depth > 0 a declaration whose initializer reads the variable
  being declared fails with "Cannot read local variable in its own initializer.", and
  at depth 0 it compiles. The code at the local program \<open>{ have x := x; }\<close>: no error is
  reported and a function is returned, whose code reads slot 1 (the slot being
  declared); \<open>resolve_local\<close> returns on the matching name before it looks at the depth
  of the local. At global scope the program compiles, as claimed. Written with the
  token \<open>=\<close>, which \<open>var_declaration\<close> does not match, both programs fail on the missing
  semicolon.
\<close>

theorem self_initializer_not_rejected:
  "reported 20 self_init_local = Some [] \<and>
   compile 20 self_init_local =
     Some (Some (ObjFunction None 0
       [Op OP_GET_LOCAL, Raw 1, Op OP_POP, Op OP_NIL, Op OP_RETURN] [1, 1, 1, 1, 1] [])) \<and>
   reported 20 self_init_global = Some [] \<and>
   compiled_code 20 self_init_global =
     Some [Op OP_GET_GLOBAL, Raw 1, Op OP_DEFINE_GLOBAL, Raw 0, Op OP_NIL, Op OP_RETURN] \<and>
   reported 20 self_init_local_equal = Some [''Expect ';' after variable declaration.''] \<and>
   reported 20 self_init_global_equal = Some [''Expect ';' after variable declaration.''] \<and>
   compile 20 self_init_global_equal = Some None"
  by code_simp

subsection \<open>References that match no local\<close>

text \<open>
  C2. The claim: a reference that matches no local is compiled as a global access and
  raises no compile error. The code at \<open>{ have x := y; }\<close>: \<open>y\<close> matches no local, and
  yet "Cannot read local variable in its own initializer." is reported and \<open>compile\<close>
  fails, because the scan passes the uninitialized local \<open>x\<close> on its way.
\<close>

theorem unmatched_reference_reports_error:
  "reported 20 other_init_local =
     Some [''Cannot read local variable in its own initializer.''] \<and>
   compile 20 other_init_local = Some None"
  by code_simp

subsection \<open>Assignment targets\<close>

text \<open>
  C3. The claim: an \<open>=\<close> where assignment is not permitted, as in \<open>a + b = c;\<close>, is an
  invalid-assignment-target error. The code at \<open>a + b = c;\<close>: \<open>named_variable\<close> tests
  \<open>match(EQUAL)\<close> before \<open>can_assign\<close> and so consumes the \<open>=\<close> behind \<open>b\<close>; what is
  reported is the missing semicolon, and \<open>a + b = ;\<close> compiles without any error as
  \<open>a + b;\<close>. After a number, \<open>a + 1 = c;\<close>, the error is the claimed one.
\<close>

theorem assignment_to_sum_not_reported:
  "reported 20 assign_to_sum = Some [''Expect ';' after expression.''] \<and>
   reported 20 assign_to_sum_nothing = Some [] \<and>
   compiled_code 20 assign_to_sum_nothing =
     Some [Op OP_GET_GLOBAL, Raw 0, Op OP_GET_GLOBAL, Raw 1, Op OP_ADD, Op OP_POP,
           Op OP_NIL, Op OP_RETURN] \<and>
   reported 20 assign_to_sum_number = Some [''Invalid assignment target.'']"
  by code_simp

subsection \<open>Jump patching\<close>

text \<open>
  C4. The claim: when the distance of a jump exceeds 65535, compilation fails with
  "Too much code to jump over." and no corrupted bytecode is emitted. The code at a
  chunk of 65540 bytes and the offset 1, a distance of 65537: the error is reported,
  and \<open>patch_jump\<close> goes on to overwrite the two bytes at the offset with the low 16 bits
  of the distance, so that the operand in the chunk reads 1.
\<close>

theorem jump_too_far_operand:
  "count long_chunk - 1 - 2 = 65537 \<and>
   errors (patch_jump 1 long_chunk) = [''Too much code to jump over.''] \<and>
   take 4 (chunk_code long_chunk) = [Op OP_NIL, Op OP_NIL, Op OP_NIL, Op OP_NIL] \<and>
   take 4 (chunk_code (patch_jump 1 long_chunk)) = [Op OP_NIL, Raw 0, Raw 1, Op OP_NIL] \<and>
   read_short (chunk_code (patch_jump 1 long_chunk)) 1 = 1"
proof -
  have c: "count long_chunk = 65540" by (rule long_chunk_count)
  have l: "chunk_code long_chunk = replicate 65540 (Op OP_NIL)"
    by (simp add: long_chunk_def chunk_code_def)
  have e: "errors (patch_jump 1 long_chunk) = [''Too much code to jump over.'']"
    using patch_jump_too_far(1)[of long_chunk 1] long_chunk_ok
    by (simp add: c UINT16_MAX_def)
  have p: "chunk_code (patch_jump 1 long_chunk) =
             (chunk_code long_chunk)[nat 1 := hi_byte 65537, nat (1 + 1) := lo_byte 65537]"
    using patch_jump_code[of 1 long_chunk] by (simp add: c)
  have h: "hi_byte 65537 = Raw 0" "lo_byte 65537 = Raw 1"
    by (simp_all add: hi_byte_def lo_byte_def)
  have r: "replicate 65540 (Op OP_NIL) =
             Op OP_NIL # Op OP_NIL # Op OP_NIL # Op OP_NIL # replicate 65536 (Op OP_NIL)"
    by (simp add: replicate_Suc[symmetric] del: replicate_Suc)
  have t: "take 4 (chunk_code (patch_jump 1 long_chunk)) = [Op OP_NIL, Raw 0, Raw 1, Op OP_NIL]"
    unfolding p l h r by simp
  have t0: "take 4 (chunk_code long_chunk) = [Op OP_NIL, Op OP_NIL, Op OP_NIL, Op OP_NIL]"
    unfolding l r by simp
  have rs: "read_short (chunk_code (patch_jump 1 long_chunk)) 1 = 1"
    using patch_jump_operand[of 1 long_chunk] by (simp add: c)
  from c e t t0 rs show ?thesis by simp
qed

text \<open>
  C4, as the code has it. \<open>emit_jump\<close> appends the instruction and two placeholder bytes
  and returns the offset of the first placeholder. For an offset inside the chunk,
  \<open>patch_jump\<close> always overwrites the two bytes at the offset, big-endian, with the low
  16 bits of the distance (count - offset - 2), and changes no other byte. For a distance
  of at most 65535 the operand read back is the distance itself, target - (offset + 2),
  and no error is reported. For a distance above 65535 the error flag is set and
  "Too much code to jump over." is reported unless panic mode suppresses it; the
  operand in the chunk is then not the distance; the flag stays set through everything
  that is compiled afterwards, and with the flag set \<open>compile\<close> returns the failure
  indication, so the chunk with the truncated operand is not handed out.
\<close>

theorem jump_patching:
  "(emit_jump instruction st = (st1, offset) \<longrightarrow>
      offset = count st + 1 \<and>
      chunk_code st1 = chunk_code st @ [Op instruction, Raw 255, Raw 255]) \<and>
   (0 \<le> off \<and> off + 2 \<le> count st2 \<longrightarrow>
      chunk_code (patch_jump off st2) =
        (chunk_code st2)[nat off := hi_byte (count st2 - off - 2),
                         nat (off + 1) := lo_byte (count st2 - off - 2)] \<and>
      read_short (chunk_code (patch_jump off st2)) off = (count st2 - off - 2) mod 65536) \<and>
   (0 \<le> off \<and> off + 2 \<le> count st2 \<and> count st2 - off - 2 \<le> UINT16_MAX \<longrightarrow>
      read_short (chunk_code (patch_jump off st2)) off = count st2 - (off + 2) \<and>
      length (chunk_code (patch_jump off st2)) = length (chunk_code st2) \<and>
      errors (patch_jump off st2) = errors st2 \<and>
      had_error (patch_jump off st2) = had_error st2) \<and>
   (count st2 - off - 2 > UINT16_MAX \<and> error_state_ok st2 \<longrightarrow>
      had_error (patch_jump off st2) \<and>
      (\<not> panic_mode st2 \<longrightarrow>
         errors (patch_jump off st2) = errors st2 @ [''Too much code to jump over.'']) \<and>
      (0 \<le> off \<and> off + 2 \<le> count st2 \<longrightarrow>
         read_short (chunk_code (patch_jump off st2)) off \<noteq> count st2 - off - 2) \<and>
      (\<forall>n c st'. stmt n c (patch_jump off st2) = Some st' \<longrightarrow>
         had_error st' \<and> finish_compile st' = None) \<and>
      (\<forall>n c st'. expr n c (patch_jump off st2) = Some st' \<longrightarrow>
         had_error st' \<and> finish_compile st' = None))"
proof (intro conjI impI)
  assume "emit_jump instruction st = (st1, offset)"
  from emit_jump_code[OF this]
  show "offset = count st + 1"
    and "chunk_code st1 = chunk_code st @ [Op instruction, Raw 255, Raw 255]"
    by simp_all
next
  assume a: "0 \<le> off \<and> off + 2 \<le> count st2"
  then have b: "0 \<le> off" "off + 2 \<le> count st2" by simp_all
  show "chunk_code (patch_jump off st2) =
        (chunk_code st2)[nat off := hi_byte (count st2 - off - 2),
                         nat (off + 1) := lo_byte (count st2 - off - 2)]"
    by (rule patch_jump_code[OF b])
  show "read_short (chunk_code (patch_jump off st2)) off = (count st2 - off - 2) mod 65536"
    by (rule patch_jump_operand[OF b])
next
  assume a: "0 \<le> off \<and> off + 2 \<le> count st2 \<and> count st2 - off - 2 \<le> UINT16_MAX"
  then have b: "0 \<le> off" "off + 2 \<le> count st2" "count st2 - off - 2 \<le> UINT16_MAX"
    by simp_all
  from patch_jump_ok[OF b]
  show "read_short (chunk_code (patch_jump off st2)) off = count st2 - (off + 2)"
    and "length (chunk_code (patch_jump off st2)) = length (chunk_code st2)"
    and "errors (patch_jump off st2) = errors st2"
    and "had_error (patch_jump off st2) = had_error st2"
    by simp_all
next
  assume a: "count st2 - off - 2 > UINT16_MAX \<and> error_state_ok st2"
  then have far: "count st2 - off - 2 > UINT16_MAX" and ok: "panic_mode st2 \<longrightarrow> had_error st2"
    by (auto simp: error_state_ok_def)
  from patch_jump_too_far(2)[OF far ok]
  show h: "had_error (patch_jump off st2)" .
  show "\<forall>n c st'. stmt n c (patch_jump off st2) = Some st' \<longrightarrow>
          had_error st' \<and> finish_compile st' = None"
    using h had_error_stmt finish_compile_had_error by blast
  show "\<forall>n c st'. expr n c (patch_jump off st2) = Some st' \<longrightarrow>
          had_error st' \<and> finish_compile st' = None"
    using h had_error_expr finish_compile_had_error by blast
  {
    assume "\<not> panic_mode st2"
    from patch_jump_too_far(1)[OF far this]
    show "errors (patch_jump off st2) = errors st2 @ [''Too much code to jump over.'']" .
  }
  {
    assume b: "0 \<le> off \<and> off + 2 \<le> count st2"
    then have "read_short (chunk_code (patch_jump off st2)) off = (count st2 - off - 2) mod 65536"
      using patch_jump_operand by blast
    moreover have "(count st2 - off - 2) mod 65536 < 65536" by simp
    ultimately show "read_short (chunk_code (patch_jump off st2)) off \<noteq> count st2 - off - 2"
      using far by (simp add: UINT16_MAX_def)
  }
qed

theorem jump_patching_witness:
  "emit_jump OP_JUMP fresh_script = (fst (emit_jump OP_JUMP fresh_script), 1) \<and>
   chunk_code (fst (emit_jump OP_JUMP fresh_script)) = [Op OP_JUMP, Raw 255, Raw 255] \<and>
   chunk_code (patch_jump 1 (emit_byte (Op OP_NIL) (fst (emit_jump OP_JUMP fresh_script)))) =
     [Op OP_JUMP, Raw 0, Raw 1, Op OP_NIL] \<and>
   read_short (chunk_code (patch_jump 1 (emit_byte (Op OP_NIL) (fst (emit_jump OP_JUMP fresh_script))))) 1 = 1 \<and>
   had_error (patch_jump 1 long_chunk) \<and>
   errors (patch_jump 1 long_chunk) = [''Too much code to jump over.''] \<and>
   read_short (chunk_code (patch_jump 1 long_chunk)) 1 \<noteq> 65537 \<and>
   finish_compile (patch_jump 1 long_chunk) = None"
proof -
  let ?s1 = "fst (emit_jump OP_JUMP fresh_script)"
  let ?o = "snd (emit_jump OP_JUMP fresh_script)"
  let ?s2 = "emit_byte (Op OP_NIL) ?s1"
  have c0: "count fresh_script = 0" "chunk_code fresh_script = []"
    by (simp_all add: fresh_script_def init_compiler_def count_def chunk_code_def new_function_def)
  have e: "emit_jump OP_JUMP fresh_script = (?s1, ?o)" by simp
  have c2: "count ?s2 = 4"
    by (simp add: emit_jump_def Let_def count_chunk_code c0)
  have h0: "0 \<le> (1::int) \<and> 1 + 2 \<le> count ?s2" by (simp add: c2)
  have h1: "0 \<le> (1::int) \<and> 1 + 2 \<le> count ?s2 \<and> count ?s2 - 1 - 2 \<le> UINT16_MAX"
    by (simp add: c2 UINT16_MAX_def)
  have h2: "count long_chunk - 1 - 2 > UINT16_MAX \<and> error_state_ok long_chunk"
    by (simp add: long_chunk_count long_chunk_ok UINT16_MAX_def)
  have h3: "0 \<le> (1::int) \<and> 1 + 2 \<le> count long_chunk" by (simp add: long_chunk_count)
  have b1: "hi_byte 1 = Raw 0" "lo_byte 1 = Raw 1" by (simp_all add: hi_byte_def lo_byte_def)
  note t1 = jump_patching[of OP_JUMP fresh_script ?s1 ?o 1 ?s2]
  note t2 = jump_patching[of OP_JUMP fresh_script ?s1 ?o 1 long_chunk]
  from t1 e have a: "?o = 1" "chunk_code ?s1 = [Op OP_JUMP, Raw 255, Raw 255]"
    by (simp_all add: c0)
  from t1 h0 have "chunk_code (patch_jump 1 ?s2) =
        (chunk_code ?s2)[nat 1 := hi_byte (count ?s2 - 1 - 2),
                         nat (1 + 1) := lo_byte (count ?s2 - 1 - 2)]"
    by blast
  then have a2: "chunk_code (patch_jump 1 ?s2) = [Op OP_JUMP, Raw 0, Raw 1, Op OP_NIL]"
    by (simp add: c2 a b1)
  from t1 h1 have "read_short (chunk_code (patch_jump 1 ?s2)) 1 = count ?s2 - (1 + 2)"
    by blast
  then have a3: "read_short (chunk_code (patch_jump 1 ?s2)) 1 = 1" by (simp add: c2)
  from t2 h2 long_chunk_ok
  have b: "had_error (patch_jump 1 long_chunk)"
    "errors (patch_jump 1 long_chunk) = [''Too much code to jump over.'']"
    by simp_all
  from t2 h2 h3 have "read_short (chunk_code (patch_jump 1 long_chunk)) 1 \<noteq> count long_chunk - 1 - 2"
    by blast
  then have b3: "read_short (chunk_code (patch_jump 1 long_chunk)) 1 \<noteq> 65537"
    by (simp add: long_chunk_count)
  have b4: "finish_compile (patch_jump 1 long_chunk) = None"
    using b(1) by (rule finish_compile_had_error)
  from a a2 a3 b b3 b4 e show ?thesis by simp
qed

subsection \<open>Leaving a scope\<close>

text \<open>
  C5. \<open>end_scope\<close> lowers the scope depth by one, emits one pop instruction for each
  local at the end of the table whose depth exceeds the new depth, and cuts exactly
  these locals off the table; no error is reported. Where the depths of the table are
  in order, as declarations leave them, these locals are all the locals deeper than
  the new depth: the bindings of the scope that are still in the table.
\<close>

theorem end_scope_pops:
  "chunk_code (end_scope st) =
     chunk_code st @
       replicate (scope_exit_count (scope_depth (compiler st) - 1) (locals (compiler st)))
         (Op OP_POP) \<and>
   locals (compiler (end_scope st)) =
     take (length (locals (compiler st)) -
             scope_exit_count (scope_depth (compiler st) - 1) (locals (compiler st)))
       (locals (compiler st)) \<and>
   scope_depth (compiler (end_scope st)) = scope_depth (compiler st) - 1 \<and>
   errors (end_scope st) = errors st \<and>
   (sorted (map depth (locals (compiler st))) \<longrightarrow>
      scope_exit_count (scope_depth (compiler st) - 1) (locals (compiler st)) =
        length (filter (\<lambda>l. depth l > scope_depth (compiler st) - 1) (locals (compiler st))))"
  using end_scope_spec[of st] scope_exit_count_sorted by blast

theorem end_scope_pops_witness:
  "sorted (map depth (locals (compiler nested_locals))) \<and>
   chunk_code (end_scope nested_locals) = [Op OP_POP, Op OP_POP] \<and>
   map (lexeme \<circ> name) (locals (compiler (end_scope nested_locals))) = [[], ''a''] \<and>
   length (filter (\<lambda>l. depth l > 1) (locals (compiler nested_locals))) = 2"
proof -
  have s: "sorted (map depth (locals (compiler nested_locals)))"
    by (simp add: nested_locals_fields)
  have f: "length (filter (\<lambda>l. depth l > 1) (locals (compiler nested_locals))) = 2"
    by code_simp
  have n: "length (locals (compiler nested_locals)) = 4"
    by code_simp
  from end_scope_pops[of nested_locals] s f n nested_locals_fields
  have k: "scope_exit_count 1 (locals (compiler nested_locals)) = 2"
    and c: "chunk_code (end_scope nested_locals) = replicate 2 (Op OP_POP)"
    and l: "locals (compiler (end_scope nested_locals)) = take 2 (locals (compiler nested_locals))"
    by simp_all
  have "map (lexeme \<circ> name) (take 2 (locals (compiler nested_locals))) = [[], ''a'']"
    using nested_locals_fields by (simp add: take_map[symmetric])
  with s f c l show ?thesis by (simp add: numeral_2_eq_2)
qed

subsection \<open>Declaring a variable\<close>

text \<open>
  C6. At scope depth 0 \<open>declare_variable\<close> does nothing. At another depth it scans the
  locals from the most recent one backward up to the first initialized local of a
  lower depth, reports "Already a variable with this name in this scope." exactly when
  one of the locals it passed has the name, and then adds the local, uninitialized
  (a full table reports "Too many local variables in function." instead). When no local
  is uninitialized, as at the start of every declaration, the scan stops at the first
  local whose depth is less than the current depth. So the same name again in one scope
  is an error, and in a deeper scope it is not.
\<close>

theorem declare_variable_scopes:
  "(scope_depth (compiler st) = 0 \<longrightarrow> declare_variable st = st) \<and>
   (scope_depth (compiler st) \<noteq> 0 \<and> \<not> panic_mode st \<longrightarrow>
      errors (declare_variable st) =
        errors st @
          (if redeclared (previous st) (scope_depth (compiler st)) (locals (compiler st))
           then [''Already a variable with this name in this scope.'']
           else if local_count st = UINT8_COUNT
           then [''Too many local variables in function.'']
           else []) \<and>
      locals (compiler (declare_variable st)) =
        (if local_count st = UINT8_COUNT then locals (compiler st)
         else locals (compiler st) @ [\<lparr>name = previous st, depth = -1\<rparr>])) \<and>
   ((\<forall>l \<in> set ls. depth l \<noteq> -1) \<longrightarrow>
      same_scope_locals d ls = takeWhile (\<lambda>l. \<not> depth l < d) (rev ls))"
  using declare_variable_global[of st] declare_variable_errors[of st]
        declare_variable_locals[of st] same_scope_locals_initialized[of ls d]
  by blast

theorem declare_variable_scopes_witness:
  "declare_variable global_a = global_a \<and>
   errors (declare_variable redeclare_b) = [''Already a variable with this name in this scope.''] \<and>
   errors (declare_variable shadow_a) = [] \<and>
   map (lexeme \<circ> name) (locals (compiler (declare_variable shadow_a))) =
     [[], ''a'', ''b'', ''c'', ''a''] \<and>
   same_scope_locals 2 (locals (compiler nested_locals)) =
     takeWhile (\<lambda>l. \<not> depth l < 2) (rev (locals (compiler nested_locals)))"
proof -
  have g: "scope_depth (compiler global_a) = 0" by code_simp
  have r: "scope_depth (compiler redeclare_b) \<noteq> 0 \<and> \<not> panic_mode redeclare_b" by code_simp
  have s: "scope_depth (compiler shadow_a) \<noteq> 0 \<and> \<not> panic_mode shadow_a" by code_simp
  have i: "\<forall>l \<in> set (locals (compiler nested_locals)). depth l \<noteq> -1" by code_simp
  have rv: "redeclared (previous redeclare_b) (scope_depth (compiler redeclare_b))
              (locals (compiler redeclare_b)) = True"
    "errors redeclare_b = []"
    unfolding redeclared_def same_scope_locals_def by code_simp+
  have sv: "redeclared (previous shadow_a) (scope_depth (compiler shadow_a))
              (locals (compiler shadow_a)) = False"
    "local_count shadow_a \<noteq> UINT8_COUNT" "errors shadow_a = []"
    "map (lexeme \<circ> name) (locals (compiler shadow_a) @ [\<lparr>name = previous shadow_a, depth = -1\<rparr>])
       = [[], ''a'', ''b'', ''c'', ''a'']"
    unfolding redeclared_def same_scope_locals_def by code_simp+
  from declare_variable_scopes[of global_a "locals (compiler nested_locals)" 2] g i
  have 1: "declare_variable global_a = global_a"
    and 5: "same_scope_locals 2 (locals (compiler nested_locals)) =
              takeWhile (\<lambda>l. \<not> depth l < 2) (rev (locals (compiler nested_locals)))"
    by blast+
  from declare_variable_scopes[of redeclare_b "[]" 0] r rv
  have 2: "errors (declare_variable redeclare_b) =
             [''Already a variable with this name in this scope.'']"
    by simp
  from declare_variable_scopes[of shadow_a "[]" 0] s sv
  have 3: "errors (declare_variable shadow_a) = []"
    and 4: "map (lexeme \<circ> name) (locals (compiler (declare_variable shadow_a))) =
              [[], ''a'', ''b'', ''c'', ''a'']"
    by simp_all
  from 1 2 3 4 5 show ?thesis by blast
qed

subsection \<open>break and continue\<close>

text \<open>
  C7. The claim: \<open>break\<close> and \<open>continue\<close> compile without error exactly inside a loop,
  and the jump of \<open>continue\<close> targets the re-test point of the enclosing loop. The code
  at \<open>info 1; info 2; for (;;) { func f() { continue; } }\<close>: \<open>function\<close> starts a new
  compiler and a new chunk but leaves the loop start of the surrounding loop, offset 6
  of the outer chunk, in \<open>inner_most_loop_start\<close>. The \<open>continue\<close> in the body of \<open>f\<close>,
  which stands in no loop of \<open>f\<close>, is compiled without any error, as a loop instruction
  at offset 0 of the chunk of \<open>f\<close> with the operand 65533 (the distance 3 - 6 cut to 16
  bits), which points at no instruction of that chunk. In the other direction
  \<open>while_statement\<close> records no loop start at all, so that the \<open>break\<close> of
  \<open>while (true) { break; }\<close> is reported as standing outside of a loop.
\<close>

theorem continue_in_nested_function:
  "reported 30 nested_continue = Some [] \<and>
   compiled_functions 30 nested_continue =
     Some [[Op OP_LOOP, Raw 255, Raw 253, Op OP_NIL, Op OP_RETURN]] \<and>
   compiled_code 30 nested_continue =
     Some [Op OP_CONSTANT, Raw 0, Op OP_INFO, Op OP_CONSTANT, Raw 1, Op OP_INFO,
           Op OP_CONSTANT, Raw 2, Op OP_POP, Op OP_LOOP, Raw 0, Raw 6,
           Op OP_NIL, Op OP_RETURN] \<and>
   reported 30 break_in_while = Some [''Cannot use 'break' outside of a loop.''] \<and>
   compile 30 break_in_while = Some None"
  by code_simp

subsection \<open>Function declarations\<close>




subsection \<open>The result of compile\<close>



end
